theory Spec2Isabelle
  imports Main "HOL-Library.AList" "HOL-Library.Sublist" "HOL-Library.Stream"
begin

section \<open>Python values\<close>

text \<open>
  The module \<^verbatim>\<open>smartrssparser.py\<close> is Python 2 and duck typed, so the values
  it handles are embedded in one datatype. \<open>PStr\<close> is the byte string \<^verbatim>\<open>str\<close>,
  \<open>PUnicode\<close> the text type \<^verbatim>\<open>unicode\<close> (a list of code points). A \<^verbatim>\<open>dict\<close> is
  an association list with distinct keys; keys are text (a \<^verbatim>\<open>str\<close> and a
  \<^verbatim>\<open>unicode\<close> key with the same ASCII text hash and compare equal in Python 2,
  so they are one key here). A \<^verbatim>\<open>time.struct_time\<close> is the 9-tuple it behaves
  as. \<open>PSmart\<close> is an instance of the class \<^verbatim>\<open>SmartFeedParserDict\<close>; its four
  arguments are the instance attributes \<^verbatim>\<open>__feed_dict__\<close>,
  \<^verbatim>\<open>update_time_format\<close>, \<^verbatim>\<open>fuzz_update_time\<close> and the attribute
  \<^verbatim>\<open>update_time\<close> that \<^verbatim>\<open>_get_update_time\<close> assigns (absent until then).
  No delegate registered with \<^verbatim>\<open>create_item\<close> is represented. Values are
  finite trees: floats, cyclic structures and object identity are not
  represented.
\<close>

datatype py_error = TypeError | KeyError | IndexError | AttributeError | ValueError

datatype pyval =
    PNone
  | PBool bool
  | PInt int
  | PStr string
  | PUnicode "nat list"
  | PList "pyval list"
  | PTuple "pyval list"
  | PSet "pyval list"
  | PDict "(string \<times> pyval) list"
  | PSmart "(string \<times> pyval) list" string int "string option"

fun feed_dict :: "pyval \<Rightarrow> (string \<times> pyval) list" where
  "feed_dict (PSmart fd fmt fuzz cache) = fd"
| "feed_dict _ = []"

fun update_time_format :: "pyval \<Rightarrow> string" where
  "update_time_format (PSmart fd fmt fuzz cache) = fmt"
| "update_time_format _ = []"

fun fuzz_update_time :: "pyval \<Rightarrow> int" where
  "fuzz_update_time (PSmart fd fmt fuzz cache) = fuzz"
| "fuzz_update_time _ = 0"

fun update_time_attr :: "pyval \<Rightarrow> string option" where
  "update_time_attr (PSmart fd fmt fuzz cache) = cache"
| "update_time_attr _ = None"

text \<open>\<^verbatim>\<open>SmartFeedParserDict()\<close>: the constructor with its default arguments.\<close>

definition default_format :: string where
  "default_format = ''%Y-%m-%dT%H:%M:%SZ''"

definition empty_record :: pyval where
  "empty_record = PSmart [] default_format 1 None"

subsection \<open>The escape helper\<close>

text \<open>
  \<^verbatim>\<open>unicode.encode('utf-8', errors='replace')\<close>. Python 2 encodes every code
  point, surrogates included, so the replacement policy never applies.
\<close>

definition utf8_char :: "nat \<Rightarrow> string" where
  "utf8_char c =
     (if c < 128 then [char_of c]
      else if c < 2048 then [char_of (192 + c div 64), char_of (128 + c mod 64)]
      else if c < 65536 then
        [char_of (224 + c div 4096), char_of (128 + c div 64 mod 64), char_of (128 + c mod 64)]
      else
        [char_of (240 + c div 262144 mod 8), char_of (128 + c div 4096 mod 64),
         char_of (128 + c div 64 mod 64), char_of (128 + c mod 64)])"

definition utf8_encode :: "nat list \<Rightarrow> string" where
  "utf8_encode u = concat (map utf8_char u)"

fun escape :: "pyval \<Rightarrow> pyval" where
  "escape (PUnicode u) = PStr (utf8_encode u)"
| "escape v = v"

subsection \<open>Equality and length\<close>

text \<open>
  Python's \<^verbatim>\<open>==\<close>. A \<^verbatim>\<open>bool\<close> is an \<^verbatim>\<open>int\<close> (\<^verbatim>\<open>True == 1\<close>); a \<^verbatim>\<open>str\<close>
  equals a \<^verbatim>\<open>unicode\<close> when it is ASCII and has the same text; containers
  compare by content. \<^verbatim>\<open>SmartFeedParserDict\<close> is an old-style class with
  neither \<^verbatim>\<open>__eq__\<close> nor \<^verbatim>\<open>__cmp__\<close>, so its instances compare by identity:
  two values of the model stand for two objects and are not equal.
\<close>

definition ascii_text :: "string \<Rightarrow> nat list \<Rightarrow> bool" where
  "ascii_text s u = (list_all (\<lambda>c. (of_char c :: nat) < 128) s \<and> map of_char s = u)"

fun py_eq :: "pyval \<Rightarrow> pyval \<Rightarrow> bool" where
  "py_eq PNone b = (case b of PNone \<Rightarrow> True | _ \<Rightarrow> False)"
| "py_eq (PBool x) b =
     (case b of PBool y \<Rightarrow> x = y | PInt j \<Rightarrow> j = (if x then 1 else 0) | _ \<Rightarrow> False)"
| "py_eq (PInt i) b =
     (case b of PInt j \<Rightarrow> i = j | PBool y \<Rightarrow> i = (if y then 1 else 0) | _ \<Rightarrow> False)"
| "py_eq (PStr s) b =
     (case b of PStr t \<Rightarrow> s = t | PUnicode u \<Rightarrow> ascii_text s u | _ \<Rightarrow> False)"
| "py_eq (PUnicode u) b =
     (case b of PUnicode v \<Rightarrow> u = v | PStr s \<Rightarrow> ascii_text s u | _ \<Rightarrow> False)"
| "py_eq (PList xs) b = (case b of PList ys \<Rightarrow> list_all2 py_eq xs ys | _ \<Rightarrow> False)"
| "py_eq (PTuple xs) b = (case b of PTuple ys \<Rightarrow> list_all2 py_eq xs ys | _ \<Rightarrow> False)"
| "py_eq (PSet xs) b =
     (case b of
        PSet ys \<Rightarrow>
          list_all (\<lambda>x. list_ex (\<lambda>y. py_eq x y) ys) xs \<and>
          list_all (\<lambda>y. list_ex (\<lambda>x. py_eq x y) xs) ys
      | _ \<Rightarrow> False)"
| "py_eq (PDict kvs) b =
     (case b of
        PDict kws \<Rightarrow>
          set (map fst kvs) = set (map fst kws) \<and>
          list_all (\<lambda>(k, v). case map_of kws k of None \<Rightarrow> False | Some w \<Rightarrow> py_eq v w) kvs
      | _ \<Rightarrow> False)"
| "py_eq (PSmart fd fmt fuzz cache) b = False"

text \<open>
  \<^verbatim>\<open>len(v)\<close>; \<open>None\<close> is the \<^verbatim>\<open>TypeError\<close> of a value without a length. The
  class defines \<^verbatim>\<open>__len__\<close> as \<^verbatim>\<open>len(self.__dict__)\<close>, the number of instance
  attributes: three set by \<^verbatim>\<open>__init__\<close>, and \<^verbatim>\<open>update_time\<close> once assigned.
\<close>

fun py_len :: "pyval \<Rightarrow> nat option" where
  "py_len (PStr s) = Some (length s)"
| "py_len (PUnicode u) = Some (length u)"
| "py_len (PList xs) = Some (length xs)"
| "py_len (PTuple xs) = Some (length xs)"
| "py_len (PSet xs) = Some (length xs)"
| "py_len (PDict kvs) = Some (length kvs)"
| "py_len (PSmart fd fmt fuzz cache) = Some (case cache of None \<Rightarrow> 3 | Some _ \<Rightarrow> 4)"
| "py_len _ = None"

section \<open>The longest-element selectors\<close>

text \<open>
  \<^verbatim>\<open>return_longest_element(elm1, elm2, complain=True)\<close>. The two
  \<^verbatim>\<open>try: len(...) except TypeError\<close> blocks set the flags \<^verbatim>\<open>elm1_bozo\<close> and
  \<^verbatim>\<open>elm2_bozo\<close>; the test on the escape hatch is \<^verbatim>\<open>complain == True\<close>.
\<close>

definition return_longest_element :: "pyval \<Rightarrow> pyval \<Rightarrow> pyval \<Rightarrow> py_error + pyval" where
  "return_longest_element elm1 elm2 complain =
     (case (py_len elm1, py_len elm2) of
        (None, None) \<Rightarrow> if py_eq complain (PBool True) then Inl TypeError else Inr complain
      | (None, Some elm2_len) \<Rightarrow> Inr elm2
      | (Some elm1_len, None) \<Rightarrow> Inr elm1
      | (Some elm1_len, Some elm2_len) \<Rightarrow>
          if elm1_len > elm2_len then Inr elm1
          else if elm1_len < elm2_len then Inr elm2
          else Inr elm1)"

text \<open>
  \<^verbatim>\<open>return_longest_list_element(list_)\<close>. \<open>longest_loop\<close> is the \<^verbatim>\<open>for ii in
  range(len(list_))\<close> loop over the elements not yet visited, with the loop
  variables \<^verbatim>\<open>ii\<close>, \<^verbatim>\<open>longest_index\<close> and \<^verbatim>\<open>longest_element\<close>; \<^verbatim>\<open>len\<close> of an
  element without a length raises. The final \<^verbatim>\<open>list_[longest_index]\<close> raises
  \<^verbatim>\<open>IndexError\<close> when the index is out of range.
\<close>

fun longest_loop :: "pyval list \<Rightarrow> nat \<Rightarrow> nat \<Rightarrow> nat \<Rightarrow> py_error + nat" where
  "longest_loop [] ii longest_index longest_element = Inr longest_index"
| "longest_loop (x # xs) ii longest_index longest_element =
     (case py_len x of
        None \<Rightarrow> Inl TypeError
      | Some n \<Rightarrow>
          if n > longest_element then longest_loop xs (Suc ii) ii n
          else longest_loop xs (Suc ii) longest_index longest_element)"

definition py_index :: "'a list \<Rightarrow> nat \<Rightarrow> py_error + 'a" where
  "py_index xs i = (if i < length xs then Inr (xs ! i) else Inl IndexError)"

fun return_longest_list_element :: "pyval \<Rightarrow> py_error + pyval" where
  "return_longest_list_element (PList list) =
     (case longest_loop list 0 0 0 of
        Inl e \<Rightarrow> Inl e
      | Inr longest_index \<Rightarrow> py_index list longest_index)"
| "return_longest_list_element _ = Inl TypeError"

section \<open>The delta filter\<close>

text \<open>
  \<^verbatim>\<open>smart_new_story_filter(stories_object, identifier, most_recent_identifier)\<close>
  works on any elements that support \<^verbatim>\<open>identifier in elm\<close> and
  \<^verbatim>\<open>elm[identifier]\<close>; the parameter \<open>lookup\<close> is that protocol (\<open>None\<close>: the
  key is not in the element). The result is the list of warnings issued with
  \<^verbatim>\<open>warnings.warn\<close> and the returned list.
\<close>

fun identifiers ::
  "('e \<Rightarrow> string \<Rightarrow> pyval option) \<Rightarrow> 'e list \<Rightarrow> string \<Rightarrow> bool \<Rightarrow> pyval list \<Rightarrow> bool \<times> pyval list" where
  "identifiers lookup [] identifier all_none identifier_list = (all_none, identifier_list)"
| "identifiers lookup (elm # rest) identifier all_none identifier_list =
     (case lookup elm identifier of
        Some v \<Rightarrow> identifiers lookup rest identifier False (identifier_list @ [v])
      | None \<Rightarrow> identifiers lookup rest identifier all_none (identifier_list @ [PNone]))"

text \<open>\<^verbatim>\<open>x in l\<close> and \<^verbatim>\<open>l.index(x)\<close> on a list compare each element with \<^verbatim>\<open>==\<close>.\<close>

definition list_contains :: "pyval list \<Rightarrow> pyval \<Rightarrow> bool" where
  "list_contains l x = list_ex (\<lambda>e. py_eq e x) l"

fun list_index :: "pyval list \<Rightarrow> pyval \<Rightarrow> nat" where
  "list_index [] x = 0"
| "list_index (e # l) x = (if py_eq e x then 0 else Suc (list_index l x))"

definition missing_key_warning :: "string \<Rightarrow> string" where
  "missing_key_warning identifier =
     ''None of the stories_object elements had the key '' @ [CHR 0x27] @ identifier @
     [CHR 0x27] @ ''. The entire list will be returned unfiltered''"

definition smart_new_story_filter ::
  "('e \<Rightarrow> string \<Rightarrow> pyval option) \<Rightarrow> 'e list \<Rightarrow> string \<Rightarrow> pyval \<Rightarrow> string list \<times> 'e list" where
  "smart_new_story_filter lookup stories_object identifier most_recent_identifier =
     (let (all_none, identifier_list) = identifiers lookup stories_object identifier True [];
          warned = (if all_none then [missing_key_warning identifier] else []);
          pivot_identifier_index =
            (if list_contains identifier_list most_recent_identifier
             then list_index identifier_list most_recent_identifier
             else length identifier_list)
      in (warned, take pivot_identifier_index stories_object))"

text \<open>The protocol of a plain \<^verbatim>\<open>dict\<close> element.\<close>

definition dict_lookup :: "(string \<times> pyval) list \<Rightarrow> string \<Rightarrow> pyval option" where
  "dict_lookup d k = map_of d k"

section \<open>The recursive normalizer\<close>

text \<open>\<^verbatim>\<open>self.__feed_dict__[name] = value\<close>, the method \<^verbatim>\<open>__setitem__\<close>.\<close>

fun setitem :: "pyval \<Rightarrow> string \<Rightarrow> pyval \<Rightarrow> pyval" where
  "setitem (PSmart fd fmt fuzz cache) name v = PSmart (AList.update name v fd) fmt fuzz cache"
| "setitem self name v = self"

text \<open>
  \<^verbatim>\<open>make_smart_object(obj_)\<close>, the value it returns. The test
  \<^verbatim>\<open>hasattr(obj_, 'keys')\<close> holds of a \<^verbatim>\<open>dict\<close> only; the loop over
  \<^verbatim>\<open>obj_.keys()\<close> reads \<^verbatim>\<open>obj_[key]\<close> and is the loop over the items. The
  loop \<^verbatim>\<open>for ii in range(len(obj_)): obj_[ii] = make_smart_object(obj_[ii])\<close>
  over a list leaves the normalized elements in the list, which is returned.
  The function is called with the object alone, as each of its recursive
  calls is; further arguments would be handed to \<^verbatim>\<open>escape\<close>.
\<close>

fun make_smart_object :: "pyval \<Rightarrow> pyval" where
  "make_smart_object (PSmart fd fmt fuzz cache) = PSmart fd fmt fuzz cache"
| "make_smart_object (PDict kvs) =
     fold (\<lambda>(key, v) new_obj. setitem new_obj key (make_smart_object v)) kvs empty_record"
| "make_smart_object (PList xs) = PList (map make_smart_object xs)"
| "make_smart_object v = escape v"

text \<open>
  What the argument object holds after the call. A list is normalized in
  place; a \<^verbatim>\<open>dict\<close> keeps its keys and its value objects, of which the lists
  have been normalized in place by the recursive calls; nothing else is
  written to.
\<close>

fun argument_after :: "pyval \<Rightarrow> pyval" where
  "argument_after (PDict kvs) = PDict (map (\<lambda>(key, v). (key, argument_after v)) kvs)"
| "argument_after (PList xs) = PList (map make_smart_object xs)"
| "argument_after v = v"

section \<open>The class SmartFeedParserDict\<close>

subsection \<open>Item access on the values it meets\<close>

text \<open>
  \<^verbatim>\<open>__getitem__\<close> calls the method \<^verbatim>\<open>_get_<name>\<close> when the instance has one,
  and reads \<^verbatim>\<open>__feed_dict__\<close> otherwise. These are the names with such a
  method.
\<close>

definition computed_names :: "string list" where
  "computed_names =
     [''link'', ''source_unescaped_html'', ''story_content'', ''update_time'', ''stories'']"

text \<open>
  The branch of \<^verbatim>\<open>__getitem__\<close> for a name without a method, with the final
  \<^verbatim>\<open>escape\<close>; and \<^verbatim>\<open>self.get(name, default)\<close> for such a name.
\<close>

definition getitem_stored :: "pyval \<Rightarrow> string \<Rightarrow> py_error + pyval" where
  "getitem_stored self name =
     (case map_of (feed_dict self) name of
        Some v \<Rightarrow> Inr (escape v)
      | None \<Rightarrow> Inl KeyError)"

definition get_stored :: "pyval \<Rightarrow> string \<Rightarrow> pyval \<Rightarrow> pyval" where
  "get_stored self name dflt =
     (case getitem_stored self name of Inr v \<Rightarrow> v | Inl e \<Rightarrow> dflt)"

text \<open>
  \<^verbatim>\<open>name in v\<close> and \<^verbatim>\<open>v[name]\<close> for the names the accessors use on the
  entries of a feed (\<^verbatim>\<open>type\<close>, \<^verbatim>\<open>href\<close>, \<^verbatim>\<open>value\<close>: ASCII, and none has a
  \<^verbatim>\<open>_get_\<close> method), on any value: a \<^verbatim>\<open>dict\<close>, an instance (\<^verbatim>\<open>__contains__\<close>
  is \<^verbatim>\<open>__getitem__\<close> with \<^verbatim>\<open>KeyError\<close> caught), a sequence (membership), a
  string (substring); a string index into a sequence is a \<^verbatim>\<open>TypeError\<close>.
\<close>

fun item_in :: "string \<Rightarrow> pyval \<Rightarrow> py_error + bool" where
  "item_in name (PDict kvs) = Inr (map_of kvs name \<noteq> None)"
| "item_in name (PSmart fd fmt fuzz cache) =
     (case getitem_stored (PSmart fd fmt fuzz cache) name of
        Inr v \<Rightarrow> Inr True
      | Inl e \<Rightarrow> if e = KeyError then Inr False else Inl e)"
| "item_in name (PList xs) = Inr (list_contains xs (PStr name))"
| "item_in name (PTuple xs) = Inr (list_contains xs (PStr name))"
| "item_in name (PSet xs) = Inr (list_contains xs (PStr name))"
| "item_in name (PStr s) = Inr (sublist name s)"
| "item_in name (PUnicode u) = Inr (sublist (map of_char name) u)"
| "item_in name v = Inl TypeError"

fun item_get :: "pyval \<Rightarrow> string \<Rightarrow> py_error + pyval" where
  "item_get (PDict kvs) name = (case map_of kvs name of Some v \<Rightarrow> Inr v | None \<Rightarrow> Inl KeyError)"
| "item_get (PSmart fd fmt fuzz cache) name = getitem_stored (PSmart fd fmt fuzz cache) name"
| "item_get v name = Inl TypeError"

text \<open>
  The elements a \<^verbatim>\<open>for\<close> loop visits. An instance has \<^verbatim>\<open>__getitem__\<close> and no
  \<^verbatim>\<open>__iter__\<close>, so the loop asks it for item \<^verbatim>\<open>0\<close>, which is no key of its
  mapping: \<^verbatim>\<open>KeyError\<close>.
\<close>

fun py_iter :: "pyval \<Rightarrow> py_error + pyval list" where
  "py_iter (PList xs) = Inr xs"
| "py_iter (PTuple xs) = Inr xs"
| "py_iter (PSet xs) = Inr xs"
| "py_iter (PDict kvs) = Inr (map (\<lambda>(k, v). PStr k) kvs)"
| "py_iter (PStr s) = Inr (map (\<lambda>c. PStr [c]) s)"
| "py_iter (PUnicode u) = Inr (map (\<lambda>c. PUnicode [c]) u)"
| "py_iter (PSmart fd fmt fuzz cache) = Inl KeyError"
| "py_iter v = Inl TypeError"

subsection \<open>The computed fields link, story\_content and stories\<close>

text \<open>The two loops of \<^verbatim>\<open>_get_link\<close>; \<open>Some\<close> is the \<^verbatim>\<open>return\<close> inside the loop.\<close>

fun link_typed_href :: "pyval list \<Rightarrow> py_error + pyval option" where
  "link_typed_href [] = Inr None"
| "link_typed_href (link # rest) =
     (case item_in ''type'' link of
        Inl e \<Rightarrow> Inl e
      | Inr has_type \<Rightarrow>
          if \<not> has_type then link_typed_href rest
          else
            (case item_get link ''type'' of
               Inl e \<Rightarrow> Inl e
             | Inr t \<Rightarrow>
                 if \<not> py_eq t (PStr ''text/html'') then link_typed_href rest
                 else
                   (case item_in ''href'' link of
                      Inl e \<Rightarrow> Inl e
                    | Inr has_href \<Rightarrow>
                        if \<not> has_href then link_typed_href rest
                        else
                          (case item_get link ''href'' of
                             Inl e \<Rightarrow> Inl e
                           | Inr href \<Rightarrow> Inr (Some href)))))"

fun link_any_href :: "pyval list \<Rightarrow> py_error + pyval option" where
  "link_any_href [] = Inr None"
| "link_any_href (link # rest) =
     (case item_in ''href'' link of
        Inl e \<Rightarrow> Inl e
      | Inr has_href \<Rightarrow>
          if \<not> has_href then link_any_href rest
          else
            (case item_get link ''href'' of
               Inl e \<Rightarrow> Inl e
             | Inr href \<Rightarrow> Inr (Some href)))"

definition get_link :: "pyval \<Rightarrow> py_error + pyval" where
  "get_link self =
     (case py_iter (get_stored self ''links'' (PList [])) of
        Inl e \<Rightarrow> Inl e
      | Inr links \<Rightarrow>
          (case link_typed_href links of
             Inl e \<Rightarrow> Inl e
           | Inr (Some href) \<Rightarrow> Inr href
           | Inr None \<Rightarrow>
               (case py_iter (get_stored self ''links'' (PList [])) of
                  Inl e \<Rightarrow> Inl e
                | Inr links' \<Rightarrow>
                    (case link_any_href links' of
                       Inl e \<Rightarrow> Inl e
                     | Inr (Some href) \<Rightarrow> Inr href
                     | Inr None \<Rightarrow> Inr (PStr '''')))))"

text \<open>
  \<^verbatim>\<open>_get_story_content\<close>: \<^verbatim>\<open>reduce\<close> applies \<^verbatim>\<open>return_longest_element\<close>, with
  its default \<^verbatim>\<open>complain=True\<close>, to the first two candidates and then to that
  result and the third.
\<close>

definition get_story_content :: "pyval \<Rightarrow> py_error + pyval" where
  "get_story_content self =
     (case return_longest_element (get_stored self ''content'' (PStr ''''))
             (get_stored self ''description'' (PStr '''')) (PBool True) of
        Inl e \<Rightarrow> Inl e
      | Inr longer \<Rightarrow>
          (case return_longest_element longer (get_stored self ''summary'' (PStr ''''))
                  (PBool True) of
             Inl e \<Rightarrow> Inl e
           | Inr longest_elm \<Rightarrow>
               (case longest_elm of
                  PList l \<Rightarrow>
                    (case py_index l 0 of
                       Inl e \<Rightarrow> Inl e
                     | Inr first \<Rightarrow> item_get first ''value'')
                | _ \<Rightarrow> Inr longest_elm)))"

definition get_stories :: "pyval \<Rightarrow> py_error + pyval" where
  "get_stories self =
     (case return_longest_list_element
             (PList [get_stored self ''items'' (PList []),
                     get_stored self ''entries'' (PList []),
                     get_stored self ''content'' (PList [])]) of
        Inl e \<Rightarrow> Inl e
      | Inr raw_stories \<Rightarrow>
          (case py_iter raw_stories of
             Inl e \<Rightarrow> Inl e
           | Inr l \<Rightarrow> Inr (PList (map make_smart_object l))))"

subsection \<open>The computed field update\_time\<close>

text \<open>
  The clock and the random generator are read from the \<open>world\<close>: every call
  of \<^verbatim>\<open>time.time()\<close> or \<^verbatim>\<open>time.gmtime()\<close> takes the next reading of \<open>clock\<close>
  (whole seconds: the code compares \<^verbatim>\<open>int\<close> of both sides, and \<^verbatim>\<open>gmtime\<close>
  drops the fraction), every call of \<^verbatim>\<open>random.randint\<close> the next draw of
  \<open>dice\<close>. The modules \<^verbatim>\<open>time\<close>, \<^verbatim>\<open>calendar\<close> and \<^verbatim>\<open>urllib\<close> are not part of
  the repository; they are the parameter \<open>lib\<close>:
  \<^item> \<open>strftime_struct fmt v\<close> is \<^verbatim>\<open>time.strftime(fmt, v)\<close> for a value \<open>v\<close> of
    the feed, which raises when \<open>v\<close> is no time tuple;
  \<^item> \<open>strftime_gmtime fmt t\<close> is \<^verbatim>\<open>time.strftime(fmt, time.gmtime(t))\<close>;
  \<^item> \<open>timegm_strptime s fmt\<close> is \<^verbatim>\<open>calendar.timegm(time.strptime(s, fmt))\<close>,
    \<open>None\<close> when \<^verbatim>\<open>strptime\<close> raises \<^verbatim>\<open>ValueError\<close>;
  \<^item> \<open>fetch_source self\<close> is the method \<^verbatim>\<open>_get_source_unescaped_html\<close>, which
    opens a network connection.
\<close>

record world =
  clock :: "int stream"
  dice :: "int stream"

record library =
  strftime_struct :: "string \<Rightarrow> pyval \<Rightarrow> py_error + string"
  strftime_gmtime :: "string \<Rightarrow> int \<Rightarrow> string"
  timegm_strptime :: "string \<Rightarrow> string \<Rightarrow> int option"
  fetch_source :: "pyval \<Rightarrow> py_error + pyval"

definition time_time :: "world \<Rightarrow> int \<times> world" where
  "time_time w = (shd (clock w), w\<lparr>clock := stl (clock w)\<rparr>)"

definition randint :: "int \<Rightarrow> int \<Rightarrow> world \<Rightarrow> int \<times> world" where
  "randint a b w = (a + shd (dice w) mod (b - a + 1), w\<lparr>dice := stl (dice w)\<rparr>)"

text \<open>\<^verbatim>\<open>self.update_time = update_time\<close>: the assignment sets an instance attribute.\<close>

fun set_update_time_attr :: "pyval \<Rightarrow> string \<Rightarrow> pyval" where
  "set_update_time_attr (PSmart fd fmt fuzz cache) s = PSmart fd fmt fuzz (Some s)"
| "set_update_time_attr self s = self"

text \<open>
  The first \<^verbatim>\<open>try\<close> block of \<^verbatim>\<open>_get_update_time\<close>: the candidate, formatted
  from \<^verbatim>\<open>updated_parsed\<close>, or, when that raises \<^verbatim>\<open>TypeError\<close> or \<^verbatim>\<open>KeyError\<close>,
  from the current time plus a random jitter. Another exception propagates.
\<close>

definition update_time_candidate :: "library \<Rightarrow> pyval \<Rightarrow> world \<Rightarrow> (py_error + string) \<times> world" where
  "update_time_candidate lib self w =
     (case (case map_of (feed_dict self) ''updated_parsed'' of
              None \<Rightarrow> Inl KeyError
            | Some v \<Rightarrow> strftime_struct lib (update_time_format self) v) of
        Inr update_time \<Rightarrow> (Inr update_time, w)
      | Inl e \<Rightarrow>
          if e = TypeError \<or> e = KeyError then
            (let (fuzz, w1) = randint (- fuzz_update_time self) (fuzz_update_time self) w;
                 (now, w2) = time_time w1
             in (Inr (strftime_gmtime lib (update_time_format self) (now + fuzz)), w2))
          else (Inl e, w))"

text \<open>
  The second \<^verbatim>\<open>try\<close> block and the comparison: the candidate is parsed back,
  and replaced by the current time when it lies after the current time.
\<close>

definition clamp_update_time :: "library \<Rightarrow> string \<Rightarrow> string \<Rightarrow> world \<Rightarrow> string \<times> world" where
  "clamp_update_time lib fmt update_time w =
     (let (elm_epoch_time, w1) =
            (case timegm_strptime lib update_time fmt of
               Some t \<Rightarrow> (t, w)
             | None \<Rightarrow> (let (now, w') = time_time w in (now + 5, w')));
          (now, w2) = time_time w1
      in if elm_epoch_time > now then
           (let (now', w3) = time_time w2 in (strftime_gmtime lib fmt now', w3))
         else (update_time, w2))"

text \<open>
  \<^verbatim>\<open>_get_update_time\<close>: the result, the instance and the world after the
  call.
\<close>

definition get_update_time ::
  "library \<Rightarrow> pyval \<Rightarrow> world \<Rightarrow> (py_error + pyval) \<times> pyval \<times> world" where
  "get_update_time lib self w =
     (case map_of (feed_dict self) ''update_time'' of
        Some v \<Rightarrow> (Inr v, self, w)
      | None \<Rightarrow>
          (case update_time_candidate lib self w of
             (Inl e, w1) \<Rightarrow> (Inl e, self, w1)
           | (Inr candidate, w1) \<Rightarrow>
               (let (update_time, w2) =
                      clamp_update_time lib (update_time_format self) candidate w1
                in (Inr (PStr update_time), set_update_time_attr self update_time, w2))))"

subsection \<open>Field access and mutation\<close>

definition escaped :: "py_error + pyval \<Rightarrow> py_error + pyval" where
  "escaped r = (case r of Inl e \<Rightarrow> Inl e | Inr v \<Rightarrow> Inr (escape v))"

text \<open>\<^verbatim>\<open>__getitem__\<close>: the result, the instance and the world after the call.\<close>

definition getitem ::
  "library \<Rightarrow> pyval \<Rightarrow> string \<Rightarrow> world \<Rightarrow> (py_error + pyval) \<times> pyval \<times> world" where
  "getitem lib self name w =
     (if name = ''link'' then (escaped (get_link self), self, w)
      else if name = ''source_unescaped_html'' then (escaped (fetch_source lib self), self, w)
      else if name = ''story_content'' then (escaped (get_story_content self), self, w)
      else if name = ''update_time'' then
        (let (r, self', w') = get_update_time lib self w in (escaped r, self', w'))
      else if name = ''stories'' then (escaped (get_stories self), self, w)
      else (getitem_stored self name, self, w))"

text \<open>\<^verbatim>\<open>__contains__\<close>, also bound to \<^verbatim>\<open>has_key\<close>: only \<^verbatim>\<open>KeyError\<close> is caught.\<close>

definition contains ::
  "library \<Rightarrow> pyval \<Rightarrow> string \<Rightarrow> world \<Rightarrow> (py_error + bool) \<times> pyval \<times> world" where
  "contains lib self key w =
     (let (r, self', w') = getitem lib self key w
      in (case r of
            Inr v \<Rightarrow> (Inr True, self', w')
          | Inl e \<Rightarrow> if e = KeyError then (Inr False, self', w') else (Inl e, self', w')))"

text \<open>
  \<^verbatim>\<open>__delitem__\<close>. For a computed name \<^verbatim>\<open>hasattr\<close> holds, and \<^verbatim>\<open>delattr\<close> on
  the instance raises \<^verbatim>\<open>AttributeError\<close>: the method is an attribute of the
  class, not of the instance. The result is the exception raised, if any, and
  the instance after the call.
\<close>

definition delitem :: "pyval \<Rightarrow> string \<Rightarrow> py_error option \<times> pyval" where
  "delitem self name =
     (if name \<in> set computed_names then (Some AttributeError, self)
      else if map_of (feed_dict self) name \<noteq> None then
        (None, PSmart (AList.delete name (feed_dict self)) (update_time_format self)
                 (fuzz_update_time self) (update_time_attr self))
      else (Some KeyError, self))"

definition safe_delete :: "pyval \<Rightarrow> string \<Rightarrow> py_error option \<times> pyval" where
  "safe_delete self name =
     (case delitem self name of
        (Some e, self') \<Rightarrow> if e = KeyError then (None, self') else (Some e, self')
      | (None, self') \<Rightarrow> (None, self'))"

text \<open>
  \<^verbatim>\<open>update(update_dict)\<close>: the loop of \<^verbatim>\<open>safe_delete\<close> over the keys, which an
  exception leaves half way, then \<^verbatim>\<open>self.__feed_dict__.update(update_dict)\<close>.
\<close>

fun update_deletes :: "pyval \<Rightarrow> string list \<Rightarrow> py_error option \<times> pyval" where
  "update_deletes self [] = (None, self)"
| "update_deletes self (elm # rest) =
     (case safe_delete self elm of
        (Some e, self') \<Rightarrow> (Some e, self')
      | (None, self') \<Rightarrow> update_deletes self' rest)"

definition update_record :: "pyval \<Rightarrow> (string \<times> pyval) list \<Rightarrow> py_error option \<times> pyval" where
  "update_record self update_dict =
     (case update_deletes self (map fst update_dict) of
        (Some e, self') \<Rightarrow> (Some e, self')
      | (None, self') \<Rightarrow>
          (None, PSmart (fold (\<lambda>(k, v). AList.update k v) update_dict (feed_dict self'))
                   (update_time_format self') (fuzz_update_time self') (update_time_attr self')))"

text \<open>
  A caller's sequence of mutations; an operation that raises leaves the
  instance as it was at the exception, and the caller carries on.
\<close>

datatype record_op =
    SetItem string pyval
  | DelItem string
  | SafeDelete string
  | Update "(string \<times> pyval) list"

fun apply_op :: "record_op \<Rightarrow> pyval \<Rightarrow> pyval" where
  "apply_op (SetItem name v) self = setitem self name v"
| "apply_op (DelItem name) self = snd (delitem self name)"
| "apply_op (SafeDelete name) self = snd (safe_delete self name)"
| "apply_op (Update update_dict) self = snd (update_record self update_dict)"

definition run_ops :: "record_op list \<Rightarrow> pyval \<Rightarrow> pyval" where
  "run_ops ops self = fold apply_op ops self"

section \<open>Notions of the specification\<close>

text \<open>The length of a value that has one.\<close>

definition the_len :: "pyval \<Rightarrow> nat" where
  "the_len v = (case py_len v of Some n \<Rightarrow> n | None \<Rightarrow> 0)"

text \<open>
  Index \<open>i\<close> holds an element of maximum length, and no earlier element is as
  long: the first occurrence of the maximum.
\<close>

definition is_longest_first :: "pyval list \<Rightarrow> nat \<Rightarrow> bool" where
  "is_longest_first xs i =
     (i < length xs \<and> list_all (\<lambda>x. the_len x \<le> the_len (xs ! i)) xs \<and>
      list_all (\<lambda>x. the_len x < the_len (xs ! i)) (take i xs))"

text \<open>
  The entry of the identifier list for an element, and the test that an
  element has the identifier key with a value equal to the watermark.
\<close>

definition identifier_of :: "('e \<Rightarrow> string \<Rightarrow> pyval option) \<Rightarrow> string \<Rightarrow> 'e \<Rightarrow> pyval" where
  "identifier_of lookup identifier elm =
     (case lookup elm identifier of Some v \<Rightarrow> v | None \<Rightarrow> PNone)"

definition identifier_matches ::
  "('e \<Rightarrow> string \<Rightarrow> pyval option) \<Rightarrow> string \<Rightarrow> pyval \<Rightarrow> 'e \<Rightarrow> bool" where
  "identifier_matches lookup identifier watermark elm =
     (case lookup elm identifier of Some v \<Rightarrow> py_eq v watermark | None \<Rightarrow> False)"

text \<open>The three stories of the doctest of \<^verbatim>\<open>smart_new_story_filter\<close>.\<close>

definition fruit_stories :: "(string \<times> pyval) list list" where
  "fruit_stories =
     [[(''title'', PStr ''Apple'')], [(''title'', PStr ''Bannanna'')], [(''title'', PStr ''Grape'')]]"

text \<open>The value of the doctest of \<^verbatim>\<open>make_smart_object\<close>.\<close>

definition doctest_elm :: pyval where
  "doctest_elm =
     PDict [(''a'', PSet [PStr ''1'', PStr ''2'']),
            (''b'', PList [PDict [(''c'', PUnicode [67])]])]"

text \<open>The kinds of value the statements speak of.\<close>

fun is_mapping :: "pyval \<Rightarrow> bool" where
  "is_mapping (PDict kvs) = True"
| "is_mapping (PSmart fd fmt fuzz cache) = True"
| "is_mapping v = False"

fun is_record :: "pyval \<Rightarrow> bool" where
  "is_record (PSmart fd fmt fuzz cache) = True"
| "is_record v = False"

text \<open>
  The \<^verbatim>\<open>links\<close> field as the specification has it, a list of mappings: the
  entries of the list, and the condition that the field is absent or such a
  list.
\<close>

definition links_of :: "(string \<times> pyval) list \<Rightarrow> pyval list" where
  "links_of fd = (case map_of fd ''links'' of Some (PList es) \<Rightarrow> es | _ \<Rightarrow> [])"

definition links_value_ok :: "pyval \<Rightarrow> bool" where
  "links_value_ok v = (case v of PList es \<Rightarrow> list_all is_mapping es | _ \<Rightarrow> False)"

definition links_ok :: "(string \<times> pyval) list \<Rightarrow> bool" where
  "links_ok fd = (case map_of fd ''links'' of None \<Rightarrow> True | Some v \<Rightarrow> links_value_ok v)"

text \<open>
  The link of a record in the specification's words: the \<^verbatim>\<open>href\<close> of the
  first entry whose \<^verbatim>\<open>type\<close> equals \<^verbatim>\<open>"text/html"\<close> and which has an \<^verbatim>\<open>href\<close>;
  failing that, the \<^verbatim>\<open>href\<close> of the first entry that has one; failing that,
  the empty string.
\<close>

definition has_html_href :: "pyval \<Rightarrow> bool" where
  "has_html_href e =
     (item_in ''type'' e = Inr True \<and>
      (case item_get e ''type'' of Inr t \<Rightarrow> py_eq t (PStr ''text/html'') | Inl err \<Rightarrow> False) \<and>
      item_in ''href'' e = Inr True)"

definition has_href :: "pyval \<Rightarrow> bool" where
  "has_href e = (item_in ''href'' e = Inr True)"

definition href_of :: "pyval \<Rightarrow> pyval" where
  "href_of e = (case item_get e ''href'' of Inr h \<Rightarrow> h | Inl err \<Rightarrow> PStr '''')"

definition link_spec :: "pyval list \<Rightarrow> pyval" where
  "link_spec es =
     (case find has_html_href es of
        Some e \<Rightarrow> href_of e
      | None \<Rightarrow> (case find has_href es of Some e \<Rightarrow> href_of e | None \<Rightarrow> PStr ''''))"



text \<open>
  The outcome of the containment test for each computed field, stated on the
  data of the record. A value is \<open>sized\<close> when \<^verbatim>\<open>len\<close> accepts it;
  \<open>first_longest\<close> is the first element that is at least as long as every
  element of the list.
\<close>

definition sized :: "pyval \<Rightarrow> bool" where
  "sized v = (py_len v \<noteq> None)"

definition first_longest :: "pyval list \<Rightarrow> pyval option" where
  "first_longest xs = find (\<lambda>x. list_all (\<lambda>y. the_len y \<le> the_len x) xs) xs"

text \<open>
  \<^verbatim>\<open>stories\<close>: the test raises \<^verbatim>\<open>TypeError\<close> when one of \<^verbatim>\<open>items\<close>,
  \<^verbatim>\<open>entries\<close>, \<^verbatim>\<open>content\<close> (an empty list when absent) has no length;
  otherwise it is false when the first longest of the three is a record,
  which a \<^verbatim>\<open>for\<close> loop cannot visit, and true when it is anything else.
\<close>

definition stories_candidates :: "pyval \<Rightarrow> pyval list" where
  "stories_candidates self =
     [get_stored self ''items'' (PList []), get_stored self ''entries'' (PList []),
      get_stored self ''content'' (PList [])]"

definition stories_test :: "pyval \<Rightarrow> py_error + bool" where
  "stories_test self =
     (if \<not> list_all sized (stories_candidates self) then Inl TypeError
      else (case first_longest (stories_candidates self) of
              Some v \<Rightarrow> Inr (\<not> is_record v)
            | None \<Rightarrow> Inl IndexError))"

text \<open>
  \<^verbatim>\<open>link\<close>: the test is false when \<^verbatim>\<open>links\<close> holds a record, and raises
  \<^verbatim>\<open>TypeError\<close> when it holds a value that cannot be visited. Otherwise the
  entries are scanned: an entry that is no mapping raises \<^verbatim>\<open>TypeError\<close> when
  it is met, unless the name looked for (\<^verbatim>\<open>type\<close> in the first pass,
  \<^verbatim>\<open>href\<close> in the second) is tested on it and not found; a pass ends at the
  first entry that raises or has what the pass looks for.
\<close>

definition raises_on :: "string \<Rightarrow> pyval \<Rightarrow> bool" where
  "raises_on name e = (\<not> is_mapping e \<and> item_in name e \<noteq> Inr False)"

definition link_scan_test :: "pyval list \<Rightarrow> py_error + bool" where
  "link_scan_test es =
     (case find (\<lambda>e. raises_on ''type'' e \<or> has_html_href e) es of
        Some e \<Rightarrow> if raises_on ''type'' e then Inl TypeError else Inr True
      | None \<Rightarrow>
          (case find (\<lambda>e. raises_on ''href'' e \<or> has_href e) es of
             Some e \<Rightarrow> if raises_on ''href'' e then Inl TypeError else Inr True
           | None \<Rightarrow> Inr True))"

definition link_test :: "pyval \<Rightarrow> py_error + bool" where
  "link_test self =
     (if is_record (get_stored self ''links'' (PList [])) then Inr False
      else (case py_iter (get_stored self ''links'' (PList [])) of
              Inl e \<Rightarrow> Inl TypeError
            | Inr es \<Rightarrow> link_scan_test es))"

text \<open>
  \<^verbatim>\<open>story_content\<close>: the test raises \<^verbatim>\<open>TypeError\<close> when neither \<^verbatim>\<open>content\<close>
  nor \<^verbatim>\<open>description\<close> (the empty string when absent) has a length. Otherwise
  the first longest of those of \<^verbatim>\<open>content\<close>, \<^verbatim>\<open>description\<close>, \<^verbatim>\<open>summary\<close>
  that have a length is taken: when it is a list the test raises
  \<^verbatim>\<open>IndexError\<close> on the empty list and \<^verbatim>\<open>TypeError\<close> on a first element
  that is no mapping, and is true exactly when that mapping has the key
  \<^verbatim>\<open>value\<close>; when it is no list the test is true.
\<close>

definition content_candidates :: "pyval \<Rightarrow> pyval list" where
  "content_candidates self =
     [get_stored self ''content'' (PStr ''''), get_stored self ''description'' (PStr ''''),
      get_stored self ''summary'' (PStr '''')]"

definition story_content_test :: "pyval \<Rightarrow> py_error + bool" where
  "story_content_test self =
     (if \<not> list_ex sized (take 2 (content_candidates self)) then Inl TypeError
      else (case first_longest (filter sized (content_candidates self)) of
              None \<Rightarrow> Inl TypeError
            | Some longest \<Rightarrow>
                (case longest of
                   PList l \<Rightarrow>
                     (case l of
                        [] \<Rightarrow> Inl IndexError
                      | first # rest \<Rightarrow>
                          if is_mapping first then Inr (item_in ''value'' first = Inr True)
                          else Inl TypeError)
                 | _ \<Rightarrow> Inr True)))"

text \<open>
  \<^verbatim>\<open>update_time\<close>: the test is true of a record with a literal
  \<^verbatim>\<open>update_time\<close> or without \<^verbatim>\<open>updated_parsed\<close>; with \<^verbatim>\<open>updated_parsed\<close> it
  is true unless \<^verbatim>\<open>time.strftime\<close> raises an exception other than the
  \<^verbatim>\<open>TypeError\<close> and \<^verbatim>\<open>KeyError\<close> the accessor catches, which it then raises.
\<close>

definition update_time_test :: "library \<Rightarrow> pyval \<Rightarrow> py_error + bool" where
  "update_time_test lib self =
     (if map_of (feed_dict self) ''update_time'' \<noteq> None then Inr True
      else (case map_of (feed_dict self) ''updated_parsed'' of
              None \<Rightarrow> Inr True
            | Some v \<Rightarrow>
                (case strftime_struct lib (update_time_format self) v of
                   Inr s \<Rightarrow> Inr True
                 | Inl e \<Rightarrow> if e = TypeError \<or> e = KeyError then Inr True else Inl e)))"

text \<open>
  A typing of the candidate fields under which \<^verbatim>\<open>stories\<close> and \<^verbatim>\<open>link\<close>
  resolve: \<^verbatim>\<open>links\<close> a list of mappings; \<^verbatim>\<open>items\<close>, \<^verbatim>\<open>entries\<close> and
  \<^verbatim>\<open>content\<close> a value with a length that is no record, each when present;
  and the mutations that keep them so.
\<close>

definition value_ok :: "string \<Rightarrow> pyval \<Rightarrow> bool" where
  "value_ok name v =
     (if name = ''links'' then links_value_ok v
      else if name \<in> set [''items'', ''entries'', ''content''] then sized v \<and> \<not> is_record v
      else True)"

definition feed_ok :: "(string \<times> pyval) list \<Rightarrow> bool" where
  "feed_ok fd =
     list_all (\<lambda>name. case map_of fd name of None \<Rightarrow> True | Some v \<Rightarrow> value_ok name v)
       [''links'', ''items'', ''entries'', ''content'']"

definition record_ok :: "pyval \<Rightarrow> bool" where
  "record_ok self = (is_record self \<and> feed_ok (feed_dict self))"

fun op_ok :: "record_op \<Rightarrow> bool" where
  "op_ok (SetItem name v) = value_ok name v"
| "op_ok (Update update_dict) = list_all (\<lambda>(name, v). value_ok name v) update_dict"
| "op_ok other = True"

definition example_ops :: "record_op list" where
  "example_ops =
     [SetItem ''title'' (PStr ''News''), DelItem ''stories'', SafeDelete ''title'',
      Update [(''items'', PList [PDict [(''title'', PUnicode [72, 105])]])],
      Update [(''link'', PStr ''x'')], DelItem ''content'']"

text \<open>
  The time library at the instants of the examples: second 99, 100 and 101 of
  the epoch and the first second of 2099, in the default format
  \<^verbatim>\<open>%Y-%m-%dT%H:%M:%SZ\<close>. The clock of \<open>example_world\<close> stands at second 100;
  its first draw gives the jitter \<open>-1\<close>, its later draws the jitter \<open>0\<close>.
\<close>

definition year_2099 :: pyval where
  "year_2099 = PTuple [PInt 2099, PInt 1, PInt 1, PInt 0, PInt 0, PInt 0, PInt 3, PInt 1, PInt 0]"

definition example_library :: library where
  "example_library =
     \<lparr>strftime_struct = (\<lambda>fmt v.
         if v = year_2099 then Inr ''2099-01-01T00:00:00Z'' else Inl TypeError),
       strftime_gmtime = (\<lambda>fmt t.
         if t = 99 then ''1970-01-01T00:01:39Z''
         else if t = 100 then ''1970-01-01T00:01:40Z''
         else ''1970-01-01T00:01:41Z''),
       timegm_strptime = (\<lambda>s fmt.
         if s = ''1970-01-01T00:01:39Z'' then Some 99
         else if s = ''1970-01-01T00:01:40Z'' then Some 100
         else if s = ''1970-01-01T00:01:41Z'' then Some 101
         else if s = ''2099-01-01T00:00:00Z'' then Some 4070908800
         else None),
       fetch_source = (\<lambda>self. Inl KeyError)\<rparr>"

definition example_world :: world where
  "example_world = \<lparr>clock = sconst 100, dice = 0 ## sconst 1\<rparr>"

definition future_record :: pyval where
  "future_record = PSmart [(''updated_parsed'', year_2099)] default_format 1 None"

text \<open>
  Records on which a containment test is not true. The first three are
  normalized feeds in which \<^verbatim>\<open>items\<close> or \<^verbatim>\<open>links\<close> is a mapping, or the first
  \<^verbatim>\<open>content\<close> entry has no \<^verbatim>\<open>value\<close>; the others hold a number under
  \<^verbatim>\<open>items\<close>, a number in \<^verbatim>\<open>links\<close>, an empty \<^verbatim>\<open>content\<close> list, and a time
  tuple with month 13, on which \<^verbatim>\<open>time.strftime\<close> raises \<^verbatim>\<open>ValueError\<close>.
\<close>

definition feed_items_mapping :: pyval where
  "feed_items_mapping = make_smart_object (PDict [(''items'', PDict [(''title'', PStr ''x'')])])"

definition feed_links_mapping :: pyval where
  "feed_links_mapping = make_smart_object (PDict [(''links'', PDict [(''href'', PStr ''A'')])])"

definition feed_content_no_value :: pyval where
  "feed_content_no_value =
     make_smart_object (PDict [(''content'', PList [PDict [(''type'', PStr ''text/plain'')]])])"

definition feed_items_number :: pyval where
  "feed_items_number = PSmart [(''items'', PInt 5)] default_format 1 None"

definition feed_links_number :: pyval where
  "feed_links_number = PSmart [(''links'', PList [PInt 5])] default_format 1 None"

definition feed_content_empty :: pyval where
  "feed_content_empty = PSmart [(''content'', PList [])] default_format 1 None"

definition month_13 :: pyval where
  "month_13 = PTuple [PInt 2099, PInt 13, PInt 1, PInt 0, PInt 0, PInt 0, PInt 3, PInt 1, PInt 0]"

definition feed_month_13 :: pyval where
  "feed_month_13 = PSmart [(''updated_parsed'', month_13)] default_format 1 None"

definition range_checking_library :: library where
  "range_checking_library =
     example_library\<lparr>strftime_struct := (\<lambda>fmt v.
        if v = month_13 then Inl ValueError else strftime_struct example_library fmt v)\<rparr>"

section \<open>Properties of the longest-element selectors\<close>

lemma longest_loop_invariant:
  assumes "list_all (\<lambda>x. py_len x \<noteq> None) suf"
    and "ii = length pre"
    and "list_all (\<lambda>x. the_len x \<le> le) pre"
    and "list_all (\<lambda>x. the_len x < le) (take li pre)"
    and "(pre = [] \<and> li = 0 \<and> le = 0) \<or> (li < length pre \<and> the_len (pre ! li) = le)"
  shows "\<exists>i. longest_loop suf ii li le = Inr i \<and>
           ((pre @ suf = [] \<and> i = 0) \<or> is_longest_first (pre @ suf) i)"
  using assms
proof (induction suf arbitrary: pre ii li le)
  case Nil
  then show ?case by (auto simp: is_longest_first_def)
next
  case (Cons x suf)
  from Cons.prems(1) obtain n
    where n: "py_len x = Some n" and rest: "list_all (\<lambda>x. py_len x \<noteq> None) suf"
    by auto
  have tl: "the_len x = n" using n by (simp add: the_len_def)
  have ii: "Suc ii = length (pre @ [x])" using Cons.prems(2) by simp
  show ?case
  proof (cases "n > le")
    case True
    have a: "list_all (\<lambda>y. the_len y \<le> n) (pre @ [x])"
      using Cons.prems(3) True tl by (auto simp: list_all_iff)
    have b: "list_all (\<lambda>y. the_len y < n) (take ii (pre @ [x]))"
      using Cons.prems(2,3) True by (auto simp: list_all_iff)
    have c: "(pre @ [x] = [] \<and> ii = 0 \<and> n = 0) \<or>
             (ii < length (pre @ [x]) \<and> the_len ((pre @ [x]) ! ii) = n)"
      using Cons.prems(2) tl by simp
    from Cons.IH[OF rest ii a b c] show ?thesis using n True by simp
  next
    case False
    have a: "list_all (\<lambda>y. the_len y \<le> le) (pre @ [x])"
      using Cons.prems(3) False tl by (auto simp: list_all_iff)
    show ?thesis
    proof (cases "pre = []")
      case True
      with Cons.prems(5) have z: "li = 0" "le = 0" by auto
      have b: "list_all (\<lambda>y. the_len y < le) (take li (pre @ [x]))" using z by simp
      have c: "(pre @ [x] = [] \<and> li = 0 \<and> le = 0) \<or>
               (li < length (pre @ [x]) \<and> the_len ((pre @ [x]) ! li) = le)"
        using z True False tl by simp
      from Cons.IH[OF rest ii a b c] show ?thesis using n False by simp
    next
      case ne: False
      with Cons.prems(5) have z: "li < length pre" "the_len (pre ! li) = le" by auto
      have b: "list_all (\<lambda>y. the_len y < le) (take li (pre @ [x]))"
        using z Cons.prems(4) by simp
      have c: "(pre @ [x] = [] \<and> li = 0 \<and> le = 0) \<or>
               (li < length (pre @ [x]) \<and> the_len ((pre @ [x]) ! li) = le)"
        using z by (simp add: nth_append)
      from Cons.IH[OF rest ii a b c] show ?thesis using n False by simp
    qed
  qed
qed

lemma longest_loop_from_start:
  assumes "list_all (\<lambda>x. py_len x \<noteq> None) xs" and "xs \<noteq> []"
  shows "\<exists>i. longest_loop xs 0 0 0 = Inr i \<and> is_longest_first xs i"
  using longest_loop_invariant[of xs 0 "[]" 0 0] assms by auto

text \<open>
  What \<^verbatim>\<open>return_longest_element\<close> does when neither operand has a length: it
  raises exactly when \<^verbatim>\<open>complain == True\<close> holds, which it does of \<^verbatim>\<open>True\<close> and
  of the integer \<^verbatim>\<open>1\<close>.
\<close>

lemma return_longest_element_no_length:
  assumes "py_len a = None" and "py_len b = None"
  shows "return_longest_element a b complain =
           (if complain = PBool True \<or> complain = PInt 1 then Inl TypeError else Inr complain)"
  using assms by (cases complain) (auto simp: return_longest_element_def)

text \<open>
  C4. When both operands have a length the longer one is returned, the first on
  a tie; when one has a length that one is returned; when neither has, the
  claim lets only the boolean \<^verbatim>\<open>True\<close> raise and has every other value of
  \<^verbatim>\<open>complain\<close> returned. The code tests \<^verbatim>\<open>complain == True\<close>, and \<^verbatim>\<open>1 == True\<close>
  in Python: with \<^verbatim>\<open>complain=1\<close> the call \<^verbatim>\<open>return_longest_element(42, 43, 1)\<close>
  raises \<^verbatim>\<open>TypeError\<close> instead of returning \<^verbatim>\<open>1\<close>, against the docstring, which
  asks for a value that is \<^verbatim>\<open>True\<close> and of type \<^verbatim>\<open>bool\<close>.
\<close>

theorem return_longest_element_complain_one:
  "return_longest_element (PInt 42) (PInt 43) (PInt 1) = Inl TypeError"
  by (simp add: return_longest_element_def)

text \<open>
  C5. \<^verbatim>\<open>return_longest_list_element\<close> raises \<^verbatim>\<open>TypeError\<close> on every argument
  that is not a list; on a non-empty list whose elements all have a length it
  returns the element at the first index of maximum length; on the empty list
  it raises \<^verbatim>\<open>IndexError\<close>.
\<close>

theorem return_longest_list_element_correct:
  "((\<forall>xs. v \<noteq> PList xs) \<longrightarrow> return_longest_list_element v = Inl TypeError) \<and>
   (xs \<noteq> [] \<and> list_all (\<lambda>x. py_len x \<noteq> None) xs \<longrightarrow>
      (\<exists>i. return_longest_list_element (PList xs) = Inr (xs ! i) \<and> is_longest_first xs i)) \<and>
   return_longest_list_element (PList []) = Inl IndexError"
proof (intro conjI impI)
  assume "\<forall>xs. v \<noteq> PList xs"
  then show "return_longest_list_element v = Inl TypeError"
    by (cases v) auto
next
  assume a: "xs \<noteq> [] \<and> list_all (\<lambda>x. py_len x \<noteq> None) xs"
  then obtain i where i: "longest_loop xs 0 0 0 = Inr i" "is_longest_first xs i"
    using longest_loop_from_start by blast
  then have "return_longest_list_element (PList xs) = Inr (xs ! i)"
    by (simp add: py_index_def is_longest_first_def)
  with i show "\<exists>i. return_longest_list_element (PList xs) = Inr (xs ! i) \<and> is_longest_first xs i"
    by blast
next
  show "return_longest_list_element (PList []) = Inl IndexError"
    by (simp add: py_index_def)
qed

theorem return_longest_list_element_witness:
  "return_longest_list_element (PInt 7) = Inl TypeError \<and>
   return_longest_list_element
     (PList [PStr ''adam'', PStr ''bob'', PStr ''peter'', PStr ''david'']) = Inr (PStr ''peter'') \<and>
   return_longest_list_element (PList []) = Inl IndexError"
proof -
  let ?xs = "[PStr ''adam'', PStr ''bob'', PStr ''peter'', PStr ''david'']"
  note t = return_longest_list_element_correct[of "PInt 7" ?xs]
  have "return_longest_list_element (PInt 7) = Inl TypeError" using t by simp
  moreover have "\<exists>i. return_longest_list_element (PList ?xs) = Inr (?xs ! i) \<and>
                      is_longest_first ?xs i"
    using t by simp
  then have "return_longest_list_element (PList ?xs) = Inr (PStr ''peter'')"
    by (simp add: py_index_def)
  moreover have "return_longest_list_element (PList []) = Inl IndexError" using t by simp
  ultimately show ?thesis by simp
qed

section \<open>Properties of the delta filter\<close>

lemma identifiers_eq:
  "identifiers lookup xs identifier a acc =
     (a \<and> list_all (\<lambda>e. lookup e identifier = None) xs,
      acc @ map (identifier_of lookup identifier) xs)"
  by (induction xs arbitrary: a acc) (auto simp: identifier_of_def split: option.splits)

lemma take_list_index:
  "take (list_index (map f xs) w) xs = takeWhile (\<lambda>e. \<not> py_eq (f e) w) xs"
  by (induction xs) auto

lemma not_contains_takeWhile:
  "\<not> list_contains (map f xs) w \<Longrightarrow> takeWhile (\<lambda>e. \<not> py_eq (f e) w) xs = xs"
  by (induction xs) (auto simp: list_contains_def)

lemma filter_takeWhile:
  "snd (smart_new_story_filter lookup stories identifier w) =
     takeWhile (\<lambda>e. \<not> py_eq (identifier_of lookup identifier e) w) stories"
  by (simp add: smart_new_story_filter_def identifiers_eq take_list_index not_contains_takeWhile)

lemma py_eq_None_left: "py_eq PNone w \<longleftrightarrow> w = PNone"
  by (cases w) auto

text \<open>
  What the filter does when no element has the identifier key: it warns, and
  returns the whole list for every watermark but \<^verbatim>\<open>None\<close>.
\<close>

lemma filter_all_missing:
  assumes "list_all (\<lambda>e. lookup e identifier = None) stories"
  shows "smart_new_story_filter lookup stories identifier w =
           ([missing_key_warning identifier], if w = PNone then [] else stories)"
proof -
  have ids: "map (identifier_of lookup identifier) stories = map (\<lambda>e. PNone) stories"
    using assms by (auto simp: identifier_of_def list_all_iff)
  have tw: "takeWhile (\<lambda>e. \<not> py_eq (identifier_of lookup identifier e) w) stories =
              (if w = PNone then [] else stories)"
    using assms
    by (cases stories) (auto simp: identifier_of_def py_eq_None_left list_all_iff
        simp del: py_eq.simps intro!: takeWhile_eq_all_conv[THEN iffD2])
  have "fst (smart_new_story_filter lookup stories identifier w) = [missing_key_warning identifier]"
    using assms by (simp add: smart_new_story_filter_def identifiers_eq)
  moreover have "snd (smart_new_story_filter lookup stories identifier w) =
                   (if w = PNone then [] else stories)"
    using tw by (simp only: filter_takeWhile)
  ultimately show ?thesis by (cases "smart_new_story_filter lookup stories identifier w") simp
qed

text \<open>
  C2. The claim has the whole list returned, with a warning, for every
  watermark when no record has the identifier key. The placeholder the code
  puts in the identifier list for a missing key is \<^verbatim>\<open>None\<close>, so the watermark
  \<^verbatim>\<open>None\<close> is found at index 0: the warning announces that the entire list
  will be returned, and the empty list is returned.
\<close>

theorem filter_all_missing_watermark_None:
  "smart_new_story_filter dict_lookup [[(''title'', PStr ''Apple'')]] ''foo'' PNone =
     ([missing_key_warning ''foo''], [])"
  by (simp add: smart_new_story_filter_def dict_lookup_def list_contains_def)

text \<open>
  C3. When every record has the identifier key, the filter returns the records
  before the first one whose identifier equals the watermark under \<^verbatim>\<open>==\<close>:
  the prefix \<open>pre\<close> of any split of the list at the first match; the whole list
  when no record matches; the empty list for the empty list.
\<close>

theorem filter_returns_prefix_before_watermark:
  assumes "list_all (\<lambda>e. lookup e identifier \<noteq> None) stories"
  shows "snd (smart_new_story_filter lookup stories identifier w) =
           takeWhile (\<lambda>e. \<not> identifier_matches lookup identifier w e) stories \<and>
         (\<forall>pre m post.
            stories = pre @ m # post \<and> identifier_matches lookup identifier w m \<and>
            list_all (\<lambda>e. \<not> identifier_matches lookup identifier w e) pre \<longrightarrow>
            snd (smart_new_story_filter lookup stories identifier w) = pre) \<and>
         (list_all (\<lambda>e. \<not> identifier_matches lookup identifier w e) stories \<longrightarrow>
            snd (smart_new_story_filter lookup stories identifier w) = stories) \<and>
         snd (smart_new_story_filter lookup [] identifier w) = []"
proof -
  have same: "\<And>e. e \<in> set stories \<Longrightarrow>
      py_eq (identifier_of lookup identifier e) w = identifier_matches lookup identifier w e"
    using assms by (auto simp: identifier_of_def identifier_matches_def list_all_iff)
  have tw: "snd (smart_new_story_filter lookup stories identifier w) =
              takeWhile (\<lambda>e. \<not> identifier_matches lookup identifier w e) stories"
    unfolding filter_takeWhile by (rule takeWhile_cong) (auto simp: same)
  have split: "snd (smart_new_story_filter lookup stories identifier w) = pre"
    if "stories = pre @ m # post" "identifier_matches lookup identifier w m"
       "list_all (\<lambda>e. \<not> identifier_matches lookup identifier w e) pre" for pre m post
    using that unfolding tw by (simp add: list_all_iff takeWhile_append)
  have whole: "snd (smart_new_story_filter lookup stories identifier w) = stories"
    if "list_all (\<lambda>e. \<not> identifier_matches lookup identifier w e) stories"
    using that unfolding tw by (simp add: list_all_iff)
  have "snd (smart_new_story_filter lookup [] identifier w) = []"
    by (simp add: filter_takeWhile)
  with tw split whole show ?thesis by blast
qed

theorem filter_returns_prefix_witness:
  "list_all (\<lambda>e. dict_lookup e ''title'' \<noteq> None) fruit_stories \<and>
   snd (smart_new_story_filter dict_lookup fruit_stories ''title'' (PStr ''Bannanna'')) =
     [[(''title'', PStr ''Apple'')]] \<and>
   snd (smart_new_story_filter dict_lookup fruit_stories ''title'' (PStr ''honeydew'')) =
     fruit_stories"
proof -
  have h: "list_all (\<lambda>e. dict_lookup e ''title'' \<noteq> None) fruit_stories"
    by (simp add: fruit_stories_def dict_lookup_def)
  have "snd (smart_new_story_filter dict_lookup fruit_stories ''title'' (PStr ''Bannanna'')) =
          [[(''title'', PStr ''Apple'')]]"
    using filter_returns_prefix_before_watermark
            [of dict_lookup "''title''" fruit_stories "PStr ''Bannanna''"] h
    by (simp add: fruit_stories_def dict_lookup_def identifier_matches_def)
  moreover
  have "snd (smart_new_story_filter dict_lookup fruit_stories ''title'' (PStr ''honeydew'')) =
          fruit_stories"
    using filter_returns_prefix_before_watermark
            [of dict_lookup "''title''" fruit_stories "PStr ''honeydew''"] h
    by (simp add: fruit_stories_def dict_lookup_def identifier_matches_def)
  ultimately show ?thesis using h by simp
qed

section \<open>Properties of the recursive normalizer\<close>


lemma utf8_encode_C: "utf8_encode [67] = ''C''"
  by code_simp

lemma fold_setitem:
  "fold (\<lambda>(key, v) new_obj. setitem new_obj key (f v)) kvs (PSmart fd fmt fuzz cache) =
     PSmart (fold (\<lambda>(key, v). AList.update key (f v)) kvs fd) fmt fuzz cache"
  by (induction kvs arbitrary: fd) (auto split: prod.splits)

lemma update_fresh: "k \<notin> fst ` set al \<Longrightarrow> AList.update k v al = al @ [(k, v)]"
  by (induction al) auto

lemma fold_update_distinct:
  "distinct (map fst kvs) \<Longrightarrow> fst ` set kvs \<inter> fst ` set fd = {} \<Longrightarrow>
   fold (\<lambda>(key, v). AList.update key (f v)) kvs fd = fd @ map (\<lambda>(key, v). (key, f v)) kvs"
proof (induction kvs arbitrary: fd)
  case Nil
  then show ?case by simp
next
  case (Cons kv kvs)
  obtain k v where kv: "kv = (k, v)" by (cases kv)
  have fresh: "k \<notin> fst ` set fd" using Cons.prems(2) kv by auto
  have d: "distinct (map fst kvs)" using Cons.prems(1) by simp
  have disj: "fst ` set kvs \<inter> fst ` set (fd @ [(k, f v)]) = {}"
    using Cons.prems kv by auto
  show ?case
    using Cons.IH[OF d disj] by (simp add: kv update_fresh[OF fresh])
qed

lemma fold_update_map_cong:
  assumes "\<And>k v. (k, v) \<in> set kvs \<Longrightarrow> f (g v) = f v"
  shows "fold (\<lambda>(key, v). AList.update key (f v)) (map (\<lambda>(key, v). (key, g v)) kvs) fd =
         fold (\<lambda>(key, v). AList.update key (f v)) kvs fd"
  using assms
proof (induction kvs arbitrary: fd)
  case Nil
  then show ?case by simp
next
  case (Cons kv kvs)
  obtain k v where kv: "kv = (k, v)" by (cases kv)
  have here: "f (g v) = f v" using Cons.prems[of k v] kv by simp
  have rest: "\<And>k v. (k, v) \<in> set kvs \<Longrightarrow> f (g v) = f v" using Cons.prems by auto
  show ?case using Cons.IH[OF rest] by (simp add: kv here)
qed

lemma make_smart_object_dict:
  "make_smart_object (PDict kvs) =
     PSmart (fold (\<lambda>(key, v). AList.update key (make_smart_object v)) kvs [])
       default_format 1 None"
  by (simp add: empty_record_def fold_setitem)

lemma make_smart_object_idem:
  "make_smart_object (make_smart_object x) = make_smart_object x"
proof (induction x)
  case (PList xs)
  then show ?case by (simp add: map_idI)
next
  case (PDict kvs)
  show ?case by (simp only: make_smart_object_dict make_smart_object.simps)
qed simp_all

lemma make_smart_object_again:
  "make_smart_object (argument_after x) = make_smart_object x"
proof (induction x)
  case (PList xs)
  show ?case by (simp add: make_smart_object_idem)
next
  case (PDict kvs)
  have "\<And>k v. (k, v) \<in> set kvs \<Longrightarrow>
          make_smart_object (argument_after v) = make_smart_object v"
    using PDict.IH by fastforce
  then show ?case
    unfolding argument_after.simps make_smart_object_dict
    by (simp add: fold_update_map_cong)
qed simp_all

text \<open>
  C6. The normalizer is idempotent on every value: normalizing a result gives
  that result, and an instance of \<^verbatim>\<open>SmartFeedParserDict\<close> is returned as it
  is. A second call on the argument itself, whose lists the first call has
  normalized in place, gives the same value as the first.
\<close>

theorem make_smart_object_idempotent:
  "make_smart_object (make_smart_object x) = make_smart_object x \<and>
   make_smart_object (PSmart fd fmt fuzz cache) = PSmart fd fmt fuzz cache \<and>
   make_smart_object (argument_after x) = make_smart_object x"
proof (intro conjI)
  show "make_smart_object (make_smart_object x) = make_smart_object x"
    by (rule make_smart_object_idem)
  show "make_smart_object (PSmart fd fmt fuzz cache) = PSmart fd fmt fuzz cache"
    by simp
  show "make_smart_object (argument_after x) = make_smart_object x"
    by (rule make_smart_object_again)
qed

theorem make_smart_object_idempotent_witness:
  "make_smart_object (make_smart_object doctest_elm) = make_smart_object doctest_elm \<and>
   make_smart_object doctest_elm =
     PSmart [(''a'', PSet [PStr ''1'', PStr ''2'']),
             (''b'', PList [PSmart [(''c'', PStr ''C'')] default_format 1 None])]
       default_format 1 None"
  using make_smart_object_idempotent[of doctest_elm]
  by (simp add: doctest_elm_def empty_record_def utf8_encode_C)

text \<open>
  C7. The case analysis of \<^verbatim>\<open>make_smart_object\<close>, a function defined on every
  value. A \<^verbatim>\<open>dict\<close> yields a new instance, with the constructor's defaults, in
  which every key is bound to the normalized value; a list is returned with
  every element normalized, and is the list the argument holds after the
  call; a set or a tuple is returned unchanged and is not written to; an
  instance is returned as it is; every other value is returned through
  \<^verbatim>\<open>escape\<close>.
\<close>

theorem make_smart_object_cases:
  "(distinct (map fst kvs) \<longrightarrow>
      make_smart_object (PDict kvs) =
        PSmart (map (\<lambda>(key, v). (key, make_smart_object v)) kvs) default_format 1 None) \<and>
   make_smart_object (PList xs) = PList (map make_smart_object xs) \<and>
   argument_after (PList xs) = make_smart_object (PList xs) \<and>
   make_smart_object (PSet xs) = PSet xs \<and> argument_after (PSet xs) = PSet xs \<and>
   make_smart_object (PTuple xs) = PTuple xs \<and> argument_after (PTuple xs) = PTuple xs \<and>
   make_smart_object (PSmart fd fmt fuzz cache) = PSmart fd fmt fuzz cache \<and>
   ((\<forall>kvs. v \<noteq> PDict kvs) \<and> (\<forall>xs. v \<noteq> PList xs) \<and>
    (\<forall>fd fmt fuzz cache. v \<noteq> PSmart fd fmt fuzz cache) \<longrightarrow>
      make_smart_object v = escape v \<and> argument_after v = v)"
proof -
  have "distinct (map fst kvs) \<Longrightarrow> make_smart_object (PDict kvs) =
        PSmart (map (\<lambda>(key, v). (key, make_smart_object v)) kvs) default_format 1 None"
    using fold_update_distinct[of kvs "[]" make_smart_object]
    unfolding make_smart_object_dict by simp
  moreover have "(\<forall>kvs. v \<noteq> PDict kvs) \<and> (\<forall>xs. v \<noteq> PList xs) \<and>
      (\<forall>fd fmt fuzz cache. v \<noteq> PSmart fd fmt fuzz cache) \<longrightarrow>
      make_smart_object v = escape v \<and> argument_after v = v"
    by (cases v) auto
  ultimately show ?thesis by simp
qed

theorem make_smart_object_cases_witness:
  "distinct (map fst [(''a'', PUnicode [67]), (''b'', PList [PUnicode [67]])]) \<and>
   make_smart_object (PDict [(''a'', PUnicode [67]), (''b'', PList [PUnicode [67]])]) =
     PSmart [(''a'', PStr ''C''), (''b'', PList [PStr ''C''])] default_format 1 None \<and>
   make_smart_object (PSet [PUnicode [67]]) = PSet [PUnicode [67]] \<and>
   make_smart_object (PUnicode [67]) = PStr ''C'' \<and>
   make_smart_object (PInt 42) = PInt 42"
proof -
  let ?kvs = "[(''a'', PUnicode [67]), (''b'', PList [PUnicode [67]])]"
  have d: "distinct (map fst ?kvs)" by simp
  note t = make_smart_object_cases[of ?kvs "[PUnicode [67]]" _ _ _ _ "PUnicode [67]"]
  have "make_smart_object (PDict ?kvs) =
          PSmart (map (\<lambda>(key, v). (key, make_smart_object v)) ?kvs) default_format 1 None"
    using t d by blast
  then have a: "make_smart_object (PDict ?kvs) =
     PSmart [(''a'', PStr ''C''), (''b'', PList [PStr ''C''])] default_format 1 None"
    by (simp add: utf8_encode_C)
  have b: "make_smart_object (PSet [PUnicode [67]]) = PSet [PUnicode [67]]" using t by blast
  have "make_smart_object (PUnicode [67]) = escape (PUnicode [67])" using t by blast
  then have c: "make_smart_object (PUnicode [67]) = PStr ''C''"
    by (simp add: utf8_encode_C)
  have e: "make_smart_object (PInt 42) = PInt 42" by simp
  show ?thesis using d a b c e by simp
qed

section \<open>Properties of the link field\<close>

lemma mapping_item_in: "is_mapping e \<Longrightarrow> \<exists>b. item_in k e = Inr b"
  by (cases e) (auto simp: getitem_stored_def split: option.splits)

lemma mapping_item_get:
  "is_mapping e \<Longrightarrow> item_in k e = Inr True \<Longrightarrow> \<exists>v. item_get e k = Inr v"
  by (cases e) (auto simp: getitem_stored_def split: option.splits)

lemma link_typed_href_spec:
  "list_all is_mapping es \<Longrightarrow>
   link_typed_href es = Inr (map_option href_of (find has_html_href es))"
proof (induction es)
  case Nil
  then show ?case by simp
next
  case (Cons e es)
  then have m: "is_mapping e" and rest: "list_all is_mapping es" by auto
  obtain b where b: "item_in ''type'' e = Inr b" using mapping_item_in[OF m] by blast
  obtain c where c: "item_in ''href'' e = Inr c" using mapping_item_in[OF m] by blast
  show ?case
  proof (cases b)
    case False
    then show ?thesis using b Cons.IH[OF rest] by (simp add: has_html_href_def)
  next
    case True
    then obtain t where t: "item_get e ''type'' = Inr t"
      using mapping_item_get[OF m, of "''type''"] b by auto
    show ?thesis
    proof (cases "py_eq t (PStr ''text/html'') \<and> c")
      case False
      then show ?thesis using b c t True Cons.IH[OF rest]
        by (auto simp: has_html_href_def)
    next
      case yes: True
      then obtain h where h: "item_get e ''href'' = Inr h"
        using mapping_item_get[OF m, of "''href''"] c by auto
      show ?thesis using b c t True yes h
        by (simp add: has_html_href_def href_of_def)
    qed
  qed
qed

lemma link_any_href_spec:
  "list_all is_mapping es \<Longrightarrow>
   link_any_href es = Inr (map_option href_of (find has_href es))"
proof (induction es)
  case Nil
  then show ?case by simp
next
  case (Cons e es)
  then have m: "is_mapping e" and rest: "list_all is_mapping es" by auto
  obtain c where c: "item_in ''href'' e = Inr c" using mapping_item_in[OF m] by blast
  show ?case
  proof (cases c)
    case False
    then show ?thesis using c Cons.IH[OF rest] by (simp add: has_href_def)
  next
    case True
    then obtain h where h: "item_get e ''href'' = Inr h"
      using mapping_item_get[OF m, of "''href''"] c by auto
    show ?thesis using c True h by (simp add: has_href_def href_of_def)
  qed
qed

lemma links_ok_get_stored:
  assumes "links_ok fd"
  shows "get_stored (PSmart fd fmt fuzz cache) ''links'' (PList []) = PList (links_of fd) \<and>
         list_all is_mapping (links_of fd)"
  using assms
  by (auto simp: links_ok_def links_value_ok_def get_stored_def getitem_stored_def links_of_def
      split: option.splits pyval.splits)

lemma get_link_spec:
  assumes "links_ok fd"
  shows "get_link (PSmart fd fmt fuzz cache) = Inr (link_spec (links_of fd))"
  using links_ok_get_stored[OF assms, of fmt fuzz cache]
  by (simp add: get_link_def link_typed_href_spec link_any_href_spec link_spec_def
      split: option.splits)






section \<open>Properties of the update\_time field\<close>

lemma clamp_future:
  assumes "timegm_strptime lib candidate fmt = Some epoch" and "epoch > shd (clock w1)"
  shows "clamp_update_time lib fmt candidate w1 =
           (strftime_gmtime lib fmt (shd (stl (clock w1))),
            w1\<lparr>clock := stl (stl (clock w1))\<rparr>)"
  using assms by (simp add: clamp_update_time_def time_time_def)

text \<open>
  C9. For a record without a literal \<^verbatim>\<open>update_time\<close> whose candidate parses
  back, with the record's format, to an epoch time after the clock reading
  it is compared with, the field \<^verbatim>\<open>update_time\<close> is the current time (the
  reading \<^verbatim>\<open>time.gmtime()\<close> takes next) in the same format.
\<close>

theorem update_time_clamped_to_now:
  assumes "map_of fd ''update_time'' = None"
    and "update_time_candidate lib (PSmart fd fmt fuzz cache) w = (Inr candidate, w1)"
    and "timegm_strptime lib candidate fmt = Some epoch"
    and "epoch > shd (clock w1)"
  shows "fst (getitem lib (PSmart fd fmt fuzz cache) ''update_time'' w) =
           Inr (PStr (strftime_gmtime lib fmt (shd (stl (clock w1)))))"
  using assms(1,2) clamp_future[OF assms(3,4)]
  by (simp add: getitem_def get_update_time_def escaped_def)

theorem update_time_clamped_witness:
  "map_of (feed_dict future_record) ''update_time'' = None \<and>
   update_time_candidate example_library future_record example_world =
     (Inr ''2099-01-01T00:00:00Z'', example_world) \<and>
   timegm_strptime example_library ''2099-01-01T00:00:00Z'' default_format = Some 4070908800 \<and>
   4070908800 > shd (clock example_world) \<and>
   fst (getitem example_library future_record ''update_time'' example_world) =
     Inr (PStr ''1970-01-01T00:01:40Z'')"
proof -
  let ?fd = "feed_dict future_record"
  have a: "map_of ?fd ''update_time'' = None" by (simp add: future_record_def)
  have r: "future_record = PSmart ?fd default_format 1 None" by (simp add: future_record_def)
  have b: "update_time_candidate example_library (PSmart ?fd default_format 1 None)
             example_world = (Inr ''2099-01-01T00:00:00Z'', example_world)"
    by (simp add: update_time_candidate_def future_record_def example_library_def)
  have c: "timegm_strptime example_library ''2099-01-01T00:00:00Z'' default_format =
             Some 4070908800"
    by (simp add: example_library_def)
  have d: "4070908800 > shd (clock example_world)" by (simp add: example_world_def)
  have "fst (getitem example_library future_record ''update_time'' example_world) =
     Inr (PStr ''1970-01-01T00:01:40Z'')"
    using update_time_clamped_to_now[OF a b c d] r
    by (simp add: example_library_def example_world_def)
  with a b c d r show ?thesis by simp
qed

text \<open>
  The attribute \<^verbatim>\<open>update_time\<close> that \<^verbatim>\<open>_get_update_time\<close> assigns is never
  read: the result of an access does not depend on it.
\<close>

lemma update_time_attr_never_read:
  "fst (getitem lib (PSmart fd fmt fuzz cache) ''update_time'' w) =
   fst (getitem lib (PSmart fd fmt fuzz cache') ''update_time'' w)"
  by (simp add: getitem_def get_update_time_def update_time_candidate_def
      clamp_update_time_def Let_def split: option.splits sum.splits prod.splits)

text \<open>
  C1. The claim has a second access of \<^verbatim>\<open>update_time\<close> return the string of
  the first. The code assigns the string to the attribute \<^verbatim>\<open>update_time\<close> of
  the instance and never reads it: on the empty record, with the clock at
  second 100 for both accesses, the first access draws the jitter \<open>-1\<close> and
  returns second 99, stores it, and the second access draws the jitter \<open>0\<close>
  and returns second 100.
\<close>

theorem update_time_not_cached:
  "(case getitem example_library empty_record ''update_time'' example_world of
      (first, self1, w1) \<Rightarrow>
        (case getitem example_library self1 ''update_time'' w1 of
           (second, self2, w2) \<Rightarrow> (first, update_time_attr self1, second))) =
   (Inr (PStr ''1970-01-01T00:01:39Z''), Some ''1970-01-01T00:01:39Z'',
    Inr (PStr ''1970-01-01T00:01:40Z''))"
  by (simp add: getitem_def get_update_time_def empty_record_def update_time_candidate_def
      example_library_def example_world_def randint_def time_time_def clamp_update_time_def
      escaped_def)

section \<open>Properties of the containment test\<close>

subsection \<open>The test for stories\<close>

lemma longest_loop_unsized:
  "\<not> list_all sized xs \<Longrightarrow> longest_loop xs ii li le = Inl TypeError"
  by (induction xs arbitrary: ii li le) (auto simp: sized_def split: option.splits)

lemma first_longest_index:
  assumes "is_longest_first xs i"
  shows "first_longest xs = Some (xs ! i)"
proof -
  let ?P = "\<lambda>x. list_all (\<lambda>y. the_len y \<le> the_len x) xs"
  have i: "i < length xs" and P: "?P (xs ! i)"
    and before: "list_all (\<lambda>x. the_len x < the_len (xs ! i)) (take i xs)"
    using assms by (auto simp: is_longest_first_def)
  have "\<not> ?P (xs ! j)" if "j < i" for j
  proof -
    have "xs ! j \<in> set (take i xs)"
      using that i by (metis in_set_conv_nth length_take min.absorb2 less_imp_le nth_take)
    then have "the_len (xs ! j) < the_len (xs ! i)" using before by (simp add: list_all_iff)
    moreover have "xs ! i \<in> set xs" using i by simp
    ultimately show ?thesis
      by (auto simp: list_all_iff not_le intro!: bexI[of _ "xs ! i"])
  qed
  then show ?thesis unfolding first_longest_def find_Some_iff using i P by blast
qed

lemma first_longest_in: "first_longest xs = Some v \<Longrightarrow> v \<in> set xs"
  by (auto simp: first_longest_def find_Some_iff)

lemma first_longest_exists:
  assumes "list_all sized xs" and "xs \<noteq> []"
  shows "\<exists>v. first_longest xs = Some v \<and> v \<in> set xs"
proof -
  have "list_all (\<lambda>x. py_len x \<noteq> None) xs" using assms(1) by (simp add: list_all_iff sized_def)
  then obtain i where "is_longest_first xs i"
    using longest_loop_from_start assms(2) by blast
  then show ?thesis using first_longest_index first_longest_in by blast
qed

lemma return_longest_list_element_exact:
  assumes "xs \<noteq> []"
  shows "return_longest_list_element (PList xs) =
           (if list_all sized xs
            then (case first_longest xs of Some v \<Rightarrow> Inr v | None \<Rightarrow> Inl IndexError)
            else Inl TypeError)"
proof (cases "list_all sized xs")
  case False
  then show ?thesis by (simp add: longest_loop_unsized)
next
  case True
  then have "list_all (\<lambda>x. py_len x \<noteq> None) xs" by (simp add: list_all_iff sized_def)
  then obtain i where i: "longest_loop xs 0 0 0 = Inr i" "is_longest_first xs i"
    using longest_loop_from_start assms by blast
  then have "i < length xs" by (simp add: is_longest_first_def)
  then show ?thesis using i True by (simp add: py_index_def first_longest_index)
qed

lemma py_iter_record: "is_record v \<Longrightarrow> py_iter v = Inl KeyError"
  by (cases v) auto

lemma py_iter_sized: "sized v \<Longrightarrow> \<not> is_record v \<Longrightarrow> \<exists>l. py_iter v = Inr l"
  by (cases v) (auto simp: sized_def)

lemma contains_stories_exact:
  "fst (contains lib (PSmart fd fmt fuzz cache) ''stories'' w) =
     stories_test (PSmart fd fmt fuzz cache)"
proof -
  let ?self = "PSmart fd fmt fuzz cache"
  let ?xs = "stories_candidates ?self"
  have ne: "?xs \<noteq> []" by (simp add: stories_candidates_def)
  have r: "return_longest_list_element (PList ?xs) =
           (if list_all sized ?xs
            then (case first_longest ?xs of Some v \<Rightarrow> Inr v | None \<Rightarrow> Inl IndexError)
            else Inl TypeError)"
    by (rule return_longest_list_element_exact[OF ne])
  have g: "get_stories ?self =
     (case return_longest_list_element (PList ?xs) of
        Inl e \<Rightarrow> Inl e
      | Inr raw_stories \<Rightarrow>
          (case py_iter raw_stories of
             Inl e \<Rightarrow> Inl e
           | Inr l \<Rightarrow> Inr (PList (map make_smart_object l))))"
    by (simp add: get_stories_def stories_candidates_def)
  show ?thesis
  proof (cases "list_all sized ?xs")
    case False
    then show ?thesis using r g
      by (simp add: contains_def getitem_def escaped_def stories_test_def)
  next
    case True
    show ?thesis
    proof (cases "first_longest ?xs")
      case None
      then show ?thesis using r g True
        by (simp add: contains_def getitem_def escaped_def stories_test_def)
    next
      case (Some v)
      then have "v \<in> set ?xs" by (rule first_longest_in)
      then have sv: "sized v" using True by (simp add: list_all_iff)
      show ?thesis
      proof (cases "is_record v")
        case rec: True
        then show ?thesis using r g True Some py_iter_record[OF rec]
          by (simp add: contains_def getitem_def escaped_def stories_test_def)
      next
        case norec: False
        then obtain l where "py_iter v = Inr l" using py_iter_sized sv by blast
        then show ?thesis using r g True Some norec
          by (simp add: contains_def getitem_def escaped_def stories_test_def)
      qed
    qed
  qed
qed

subsection \<open>The test for link\<close>

lemma link_typed_href_step:
  "link_typed_href (e # rest) =
     (if raises_on ''type'' e then Inl TypeError
      else if has_html_href e then Inr (Some (href_of e))
      else link_typed_href rest)"
  by (cases e)
    (auto simp: raises_on_def has_html_href_def href_of_def getitem_stored_def
      simp del: py_eq.simps split: option.splits)

lemma link_any_href_step:
  "link_any_href (e # rest) =
     (if raises_on ''href'' e then Inl TypeError
      else if has_href e then Inr (Some (href_of e))
      else link_any_href rest)"
  by (cases e)
    (auto simp: raises_on_def has_href_def href_of_def getitem_stored_def
      split: option.splits)

lemma link_typed_href_exact:
  "link_typed_href es =
     (case find (\<lambda>e. raises_on ''type'' e \<or> has_html_href e) es of
        Some e \<Rightarrow> if raises_on ''type'' e then Inl TypeError else Inr (Some (href_of e))
      | None \<Rightarrow> Inr None)"
proof (induction es)
  case Nil
  then show ?case by simp
next
  case (Cons e es)
  show ?case unfolding link_typed_href_step using Cons.IH by simp
qed

lemma link_any_href_exact:
  "link_any_href es =
     (case find (\<lambda>e. raises_on ''href'' e \<or> has_href e) es of
        Some e \<Rightarrow> if raises_on ''href'' e then Inl TypeError else Inr (Some (href_of e))
      | None \<Rightarrow> Inr None)"
proof (induction es)
  case Nil
  then show ?case by simp
next
  case (Cons e es)
  show ?case unfolding link_any_href_step using Cons.IH by simp
qed

lemma py_iter_error:
  "py_iter v = Inl e \<Longrightarrow> (if is_record v then e = KeyError else e = TypeError)"
  by (cases v) auto

lemma py_iter_ok_not_record: "py_iter v = Inr es \<Longrightarrow> \<not> is_record v"
  by (cases v) auto

lemma contains_link_exact:
  "fst (contains lib (PSmart fd fmt fuzz cache) ''link'' w) =
     link_test (PSmart fd fmt fuzz cache)"
proof -
  let ?self = "PSmart fd fmt fuzz cache"
  let ?L = "get_stored ?self ''links'' (PList [])"
  show ?thesis
  proof (cases "py_iter ?L")
    case (Inl e)
    then show ?thesis using py_iter_error[OF Inl]
      by (auto simp: contains_def getitem_def escaped_def get_link_def link_test_def
          split: if_splits)
  next
    case (Inr es)
    have nr: "\<not> is_record ?L" using Inr by (rule py_iter_ok_not_record)
    show ?thesis using Inr nr
      by (auto simp: contains_def getitem_def escaped_def get_link_def link_test_def
          link_scan_test_def link_typed_href_exact link_any_href_exact split: option.splits)
  qed
qed

subsection \<open>The tests for story\_content, update\_time and content\<close>

lemma return_longest_element_exact:
  "return_longest_element a b (PBool True) =
     (if \<not> sized a \<and> \<not> sized b then Inl TypeError
      else Inr (if \<not> sized a then b else if \<not> sized b then a
                else if the_len b \<le> the_len a then a else b))"
  by (auto simp: return_longest_element_def sized_def the_len_def split: option.splits)

lemma reduce_longest:
  assumes "sized c \<or> sized d"
  shows "\<exists>v. first_longest (filter sized [c, d, s]) = Some v \<and>
    (case return_longest_element c d (PBool True) of
       Inl e \<Rightarrow> Inl e
     | Inr longer \<Rightarrow> return_longest_element longer s (PBool True)) = Inr v"
  using assms
  by (auto simp: return_longest_element_exact first_longest_def)

lemma item_get_other: "\<not> is_mapping e \<Longrightarrow> item_get e k = Inl TypeError"
  by (cases e) auto

lemma item_get_lacks:
  "is_mapping e \<Longrightarrow> item_in k e \<noteq> Inr True \<Longrightarrow> item_get e k = Inl KeyError"
  by (cases e) (auto simp: getitem_stored_def split: option.splits)

lemma contains_story_content_exact:
  "fst (contains lib (PSmart fd fmt fuzz cache) ''story_content'' w) =
     story_content_test (PSmart fd fmt fuzz cache)"
proof -
  let ?self = "PSmart fd fmt fuzz cache"
  let ?c = "get_stored ?self ''content'' (PStr '''')"
  let ?d = "get_stored ?self ''description'' (PStr '''')"
  let ?s = "get_stored ?self ''summary'' (PStr '''')"
  show ?thesis
  proof (cases "sized ?c \<or> sized ?d")
    case False
    then show ?thesis
      by (simp add: contains_def getitem_def escaped_def get_story_content_def
          story_content_test_def content_candidates_def return_longest_element_exact)
  next
    case True
    from reduce_longest[OF True, of ?s] obtain v
      where fl: "first_longest (filter sized [?c, ?d, ?s]) = Some v"
        and red: "(case return_longest_element ?c ?d (PBool True) of
                     Inl e \<Rightarrow> Inl e
                   | Inr longer \<Rightarrow> return_longest_element longer ?s (PBool True)) = Inr v"
      by blast
    have g: "get_story_content ?self =
               (case v of
                  PList l \<Rightarrow>
                    (case py_index l 0 of
                       Inl e \<Rightarrow> Inl e
                     | Inr first \<Rightarrow> item_get first ''value'')
                | _ \<Rightarrow> Inr v)"
      using red by (auto simp: get_story_content_def split: sum.splits)
    have t: "story_content_test ?self =
               (case v of
                   PList l \<Rightarrow>
                     (case l of
                        [] \<Rightarrow> Inl IndexError
                      | first # rest \<Rightarrow>
                          if is_mapping first then Inr (item_in ''value'' first = Inr True)
                          else Inl TypeError)
                 | _ \<Rightarrow> Inr True)"
      using True fl by (auto simp: story_content_test_def content_candidates_def)
    show ?thesis
    proof (cases v)
      case (PList l)
      show ?thesis
      proof (cases l)
        case Nil
        then show ?thesis using g t PList
          by (simp add: contains_def getitem_def escaped_def py_index_def)
      next
        case (Cons first rest)
        have gf: "get_story_content ?self = item_get first ''value''"
          using g PList Cons by (simp add: py_index_def)
        have tf: "story_content_test ?self =
                    (if is_mapping first then Inr (item_in ''value'' first = Inr True)
                     else Inl TypeError)"
          using t PList Cons by simp
        consider (other) "\<not> is_mapping first"
          | (has) "is_mapping first" "item_in ''value'' first = Inr True"
          | (lacks) "is_mapping first" "item_in ''value'' first \<noteq> Inr True"
          by blast
        then show ?thesis
        proof cases
          case other
          then show ?thesis using gf tf item_get_other[of first]
            by (simp add: contains_def getitem_def escaped_def)
        next
          case has
          then obtain x where "item_get first ''value'' = Inr x"
            using mapping_item_get by blast
          then show ?thesis using gf tf has
            by (simp add: contains_def getitem_def escaped_def)
        next
          case lacks
          then show ?thesis using gf tf item_get_lacks[of first]
            by (simp add: contains_def getitem_def escaped_def)
        qed
      qed
    qed (use g t in \<open>simp_all add: contains_def getitem_def escaped_def\<close>)
  qed
qed

lemma contains_update_time_exact:
  "fst (contains lib (PSmart fd fmt fuzz cache) ''update_time'' w) =
     update_time_test lib (PSmart fd fmt fuzz cache)"
  by (auto simp: contains_def getitem_def escaped_def get_update_time_def
      update_time_candidate_def update_time_test_def randint_def time_time_def
      split: option.splits sum.splits prod.splits)

lemma update_time_test_not_False: "update_time_test lib self \<noteq> Inr False"
  by (auto simp: update_time_test_def split: option.splits sum.splits)

lemma contains_content_exact:
  "fst (contains lib (PSmart fd fmt fuzz cache) ''content'' w) =
     Inr (map_of fd ''content'' \<noteq> None)"
  by (auto simp: contains_def getitem_def getitem_stored_def split: option.splits)

subsection \<open>Mutations\<close>

lemma is_record_delitem: "is_record self \<Longrightarrow> is_record (snd (delitem self name))"
  by (cases self) (auto simp: delitem_def)

lemma is_record_safe_delete: "is_record self \<Longrightarrow> is_record (snd (safe_delete self name))"
  using is_record_delitem[of self name]
  by (auto simp: safe_delete_def split: prod.splits option.splits)

lemma is_record_update_deletes:
  "is_record self \<Longrightarrow> is_record (snd (update_deletes self names))"
proof (induction names arbitrary: self)
  case Nil
  then show ?case by simp
next
  case (Cons n names)
  have "is_record (snd (safe_delete self n))" using Cons.prems by (rule is_record_safe_delete)
  then show ?case using Cons.IH[of "snd (safe_delete self n)"]
    by (auto split: prod.splits option.splits)
qed

lemma is_record_update_record: "is_record self \<Longrightarrow> is_record (snd (update_record self d))"
  using is_record_update_deletes[of self "map fst d"]
  by (auto simp: update_record_def split: prod.splits option.splits)

lemma is_record_apply_op: "is_record self \<Longrightarrow> is_record (apply_op op self)"
  by (cases op; cases self)
    (auto simp: is_record_delitem is_record_safe_delete is_record_update_record)

lemma is_record_run_ops: "is_record self \<Longrightarrow> is_record (run_ops ops self)"
  unfolding run_ops_def by (induction ops arbitrary: self) (auto simp: is_record_apply_op)

lemma feed_ok_links: "feed_ok fd \<Longrightarrow> links_ok fd"
  by (auto simp: feed_ok_def links_ok_def value_ok_def split: option.splits)

lemma escape_keeps_sized: "sized v \<Longrightarrow> \<not> is_record v \<Longrightarrow> sized (escape v) \<and> \<not> is_record (escape v)"
  by (cases v) (auto simp: sized_def)

lemma feed_ok_candidate:
  assumes "feed_ok fd" and "name \<in> set [''items'', ''entries'', ''content'']"
  shows "sized (get_stored (PSmart fd fmt fuzz cache) name (PList [])) \<and>
         \<not> is_record (get_stored (PSmart fd fmt fuzz cache) name (PList []))"
proof (cases "map_of fd name")
  case None
  then show ?thesis by (simp add: get_stored_def getitem_stored_def sized_def)
next
  case (Some v)
  have "value_ok name v" using assms Some by (auto simp: feed_ok_def)
  then have "sized v \<and> \<not> is_record v" using assms(2) by (auto simp: value_ok_def)
  then show ?thesis using Some escape_keeps_sized[of v]
    by (simp add: get_stored_def getitem_stored_def)
qed

lemma stories_test_feed_ok:
  assumes "feed_ok fd"
  shows "stories_test (PSmart fd fmt fuzz cache) = Inr True"
proof -
  let ?xs = "stories_candidates (PSmart fd fmt fuzz cache)"
  have all: "list_all (\<lambda>v. sized v \<and> \<not> is_record v) ?xs"
    using feed_ok_candidate[OF assms] by (simp add: stories_candidates_def)
  then have s: "list_all sized ?xs" by (simp add: list_all_iff)
  have "?xs \<noteq> []" by (simp add: stories_candidates_def)
  then obtain v where v: "first_longest ?xs = Some v" "v \<in> set ?xs"
    using first_longest_exists[OF s] by blast
  then have "\<not> is_record v" using all by (simp add: list_all_iff)
  then show ?thesis using s v by (simp add: stories_test_def)
qed

lemma feed_ok_update: "feed_ok fd \<Longrightarrow> value_ok name v \<Longrightarrow> feed_ok (AList.update name v fd)"
  by (simp add: feed_ok_def update_conv')

lemma feed_ok_delete: "feed_ok fd \<Longrightarrow> feed_ok (AList.delete name fd)"
  by (simp add: feed_ok_def delete_conv')

lemma record_ok_setitem:
  "record_ok self \<Longrightarrow> value_ok name v \<Longrightarrow> record_ok (setitem self name v)"
  by (cases self) (auto simp: record_ok_def feed_ok_update)

lemma record_ok_delitem: "record_ok self \<Longrightarrow> record_ok (snd (delitem self name))"
  by (cases self) (auto simp: record_ok_def delitem_def feed_ok_delete)

lemma record_ok_safe_delete: "record_ok self \<Longrightarrow> record_ok (snd (safe_delete self name))"
  using record_ok_delitem[of self name]
  by (auto simp: safe_delete_def split: prod.splits option.splits)

lemma record_ok_update_deletes:
  "record_ok self \<Longrightarrow> record_ok (snd (update_deletes self names))"
proof (induction names arbitrary: self)
  case Nil
  then show ?case by simp
next
  case (Cons n names)
  have "record_ok (snd (safe_delete self n))" using Cons.prems by (rule record_ok_safe_delete)
  then show ?case using Cons.IH[of "snd (safe_delete self n)"]
    by (auto split: prod.splits option.splits)
qed

lemma feed_ok_fold_update:
  "feed_ok fd \<Longrightarrow> list_all (\<lambda>(name, v). value_ok name v) d \<Longrightarrow>
   feed_ok (fold (\<lambda>(k, v). AList.update k v) d fd)"
  by (induction d arbitrary: fd) (auto simp: feed_ok_update)

lemma record_ok_update_record:
  assumes "record_ok self" and "list_all (\<lambda>(name, v). value_ok name v) d"
  shows "record_ok (snd (update_record self d))"
proof -
  have "record_ok (snd (update_deletes self (map fst d)))"
    using assms(1) by (rule record_ok_update_deletes)
  then show ?thesis using assms(2)
    by (auto simp: update_record_def record_ok_def feed_ok_fold_update
        split: prod.splits option.splits)
qed

lemma record_ok_apply_op: "record_ok self \<Longrightarrow> op_ok op \<Longrightarrow> record_ok (apply_op op self)"
  by (cases op)
    (auto simp: record_ok_setitem record_ok_delitem record_ok_safe_delete
      record_ok_update_record)

lemma record_ok_run_ops:
  "record_ok self \<Longrightarrow> list_all op_ok ops \<Longrightarrow> record_ok (run_ops ops self)"
  unfolding run_ops_def by (induction ops arbitrary: self) (auto simp: record_ok_apply_op)

subsection \<open>The claim\<close>

text \<open>
  C10, as the claim states it, fails, on these records. The class has no
  method \<^verbatim>\<open>_get_content\<close> (the computed content is \<^verbatim>\<open>_get_story_content\<close>, the
  field \<^verbatim>\<open>story_content\<close>), so \<^verbatim>\<open>content\<close> is read from the backing mapping
  and the empty record does not contain it. The tests for \<^verbatim>\<open>stories\<close>,
  \<^verbatim>\<open>link\<close> and \<^verbatim>\<open>story_content\<close> are false, not true, on a normalized feed
  whose \<^verbatim>\<open>items\<close> is a mapping, whose \<^verbatim>\<open>links\<close> is a mapping, whose first
  \<^verbatim>\<open>content\<close> entry has no \<^verbatim>\<open>value\<close>; and the tests raise, instead of
  returning true, on a number under \<^verbatim>\<open>items\<close>, a number among the \<^verbatim>\<open>links\<close>,
  an empty \<^verbatim>\<open>content\<close> list, and an \<^verbatim>\<open>updated_parsed\<close> that \<^verbatim>\<open>time.strftime\<close>
  rejects with \<^verbatim>\<open>ValueError\<close>.
\<close>

theorem containment_counterexamples:
  "fst (contains example_library empty_record ''content'' example_world) = Inr False \<and>
   fst (contains example_library feed_items_mapping ''stories'' example_world) = Inr False \<and>
   fst (contains example_library feed_links_mapping ''link'' example_world) = Inr False \<and>
   fst (contains example_library feed_content_no_value ''story_content'' example_world) =
     Inr False \<and>
   fst (contains example_library feed_items_number ''stories'' example_world) =
     Inl TypeError \<and>
   fst (contains example_library feed_links_number ''link'' example_world) = Inl TypeError \<and>
   fst (contains example_library feed_content_empty ''story_content'' example_world) =
     Inl IndexError \<and>
   fst (contains range_checking_library feed_month_13 ''update_time'' example_world) =
     Inl ValueError"
proof (intro conjI)
  show "fst (contains example_library empty_record ''content'' example_world) = Inr False"
    by (simp add: contains_def getitem_def getitem_stored_def empty_record_def)
  show "fst (contains example_library feed_items_mapping ''stories'' example_world) = Inr False"
    by (simp add: feed_items_mapping_def empty_record_def contains_stories_exact
        stories_test_def stories_candidates_def get_stored_def getitem_stored_def sized_def
        first_longest_def the_len_def)
  show "fst (contains example_library feed_links_mapping ''link'' example_world) = Inr False"
    by (simp add: feed_links_mapping_def empty_record_def contains_link_exact link_test_def
        get_stored_def getitem_stored_def)
  show "fst (contains example_library feed_content_no_value ''story_content'' example_world) =
          Inr False"
    by (simp add: feed_content_no_value_def empty_record_def contains_story_content_exact
        story_content_test_def content_candidates_def get_stored_def getitem_stored_def
        sized_def first_longest_def the_len_def)
  show "fst (contains example_library feed_items_number ''stories'' example_world) =
          Inl TypeError"
    by (simp add: feed_items_number_def contains_stories_exact stories_test_def
        stories_candidates_def get_stored_def getitem_stored_def sized_def)
  show "fst (contains example_library feed_links_number ''link'' example_world) = Inl TypeError"
    by (simp add: feed_links_number_def contains_link_exact link_test_def link_scan_test_def
        raises_on_def get_stored_def getitem_stored_def)
  show "fst (contains example_library feed_content_empty ''story_content'' example_world) =
          Inl IndexError"
    by (simp add: feed_content_empty_def contains_story_content_exact story_content_test_def
        content_candidates_def get_stored_def getitem_stored_def sized_def first_longest_def
        the_len_def)
  show "fst (contains range_checking_library feed_month_13 ''update_time'' example_world) =
          Inl ValueError"
    by (simp add: feed_month_13_def contains_update_time_exact update_time_test_def
        range_checking_library_def)
qed

text \<open>
  C10, amended. For every record, the empty one and the result of any
  sequence of set, delete and update operations included, the containment
  test of each computed field has the outcome its data fixes (\<open>stories_test\<close>,
  \<open>link_test\<close>, \<open>story_content_test\<close>, \<open>update_time_test\<close>), and \<^verbatim>\<open>content\<close>,
  which is no computed field, is contained exactly when the backing mapping
  has that key. So on the empty record, for every library and clock, the
  tests of \<^verbatim>\<open>stories\<close>, \<^verbatim>\<open>story_content\<close>, \<^verbatim>\<open>link\<close> and \<^verbatim>\<open>update_time\<close> are
  true; the test of \<^verbatim>\<open>update_time\<close> is never false, and is true of every
  record without \<^verbatim>\<open>updated_parsed\<close>; and the tests of \<^verbatim>\<open>stories\<close> and \<^verbatim>\<open>link\<close>
  stay true under every sequence of operations that store a list of mappings
  under \<^verbatim>\<open>links\<close> and values with a length, no records, under \<^verbatim>\<open>items\<close>,
  \<^verbatim>\<open>entries\<close> and \<^verbatim>\<open>content\<close>.
\<close>

theorem computed_fields_contained:
  assumes "self = run_ops ops (PSmart fd fmt fuzz cache)"
  shows "fst (contains lib self ''content'' w) =
           Inr (map_of (feed_dict self) ''content'' \<noteq> None) \<and>
         fst (contains lib self ''stories'' w) = stories_test self \<and>
         fst (contains lib self ''link'' w) = link_test self \<and>
         fst (contains lib self ''story_content'' w) = story_content_test self \<and>
         fst (contains lib self ''update_time'' w) = update_time_test lib self \<and>
         fst (contains lib self ''update_time'' w) \<noteq> Inr False \<and>
         (map_of (feed_dict self) ''updated_parsed'' = None \<longrightarrow>
            fst (contains lib self ''update_time'' w) = Inr True) \<and>
         (feed_ok fd \<and> list_all op_ok ops \<longrightarrow>
            fst (contains lib self ''stories'' w) = Inr True \<and>
            fst (contains lib self ''link'' w) = Inr True) \<and>
         fst (contains lib empty_record ''stories'' w) = Inr True \<and>
         fst (contains lib empty_record ''story_content'' w) = Inr True \<and>
         fst (contains lib empty_record ''link'' w) = Inr True \<and>
         fst (contains lib empty_record ''update_time'' w) = Inr True"
proof -
  have "is_record self" using assms by (simp add: is_record_run_ops)
  then obtain fd' fmt' fuzz' cache' where self: "self = PSmart fd' fmt' fuzz' cache'"
    by (cases self) auto
  have c: "fst (contains lib self ''content'' w) =
             Inr (map_of (feed_dict self) ''content'' \<noteq> None)"
    by (simp add: self contains_content_exact)
  have s: "fst (contains lib self ''stories'' w) = stories_test self"
    by (simp add: self contains_stories_exact)
  have l: "fst (contains lib self ''link'' w) = link_test self"
    by (simp add: self contains_link_exact)
  have sc: "fst (contains lib self ''story_content'' w) = story_content_test self"
    by (simp add: self contains_story_content_exact)
  have u: "fst (contains lib self ''update_time'' w) = update_time_test lib self"
    by (simp add: self contains_update_time_exact)
  have unf: "fst (contains lib self ''update_time'' w) \<noteq> Inr False"
    by (simp add: u update_time_test_not_False)
  have ut: "fst (contains lib self ''update_time'' w) = Inr True"
    if "map_of (feed_dict self) ''updated_parsed'' = None"
    using that by (simp add: u update_time_test_def)
  have typed: "fst (contains lib self ''stories'' w) = Inr True \<and>
               fst (contains lib self ''link'' w) = Inr True"
    if ok: "feed_ok fd" "list_all op_ok ops"
  proof -
    have "record_ok (PSmart fd fmt fuzz cache)" using ok(1) by (simp add: record_ok_def)
    then have "record_ok self" using ok(2) assms by (simp add: record_ok_run_ops)
    then have fok: "feed_ok fd'" using self by (simp add: record_ok_def)
    have "stories_test self = Inr True" using stories_test_feed_ok[OF fok] self by simp
    moreover have "get_link self = Inr (link_spec (links_of fd'))"
      using get_link_spec[OF feed_ok_links[OF fok]] self by simp
    then have "fst (contains lib self ''link'' w) = Inr True"
      by (simp add: contains_def getitem_def escaped_def)
    ultimately show ?thesis using s by simp
  qed
  have e1: "fst (contains lib empty_record ''stories'' w) = Inr True"
    by (simp add: empty_record_def contains_stories_exact stories_test_def
        stories_candidates_def get_stored_def getitem_stored_def sized_def first_longest_def)
  have e2: "fst (contains lib empty_record ''story_content'' w) = Inr True"
    by (simp add: empty_record_def contains_story_content_exact story_content_test_def
        content_candidates_def get_stored_def getitem_stored_def sized_def first_longest_def)
  have e3: "fst (contains lib empty_record ''link'' w) = Inr True"
    by (simp add: empty_record_def contains_link_exact link_test_def link_scan_test_def
        get_stored_def getitem_stored_def)
  have e4: "fst (contains lib empty_record ''update_time'' w) = Inr True"
    by (simp add: empty_record_def contains_update_time_exact update_time_test_def)
  show ?thesis using c s l sc u unf ut typed e1 e2 e3 e4 by blast
qed

theorem computed_fields_contained_witness:
  "run_ops example_ops empty_record =
     PSmart [(''items'', PList [PDict [(''title'', PUnicode [72, 105])]])]
       default_format 1 None \<and>
   feed_ok [] \<and> list_all op_ok example_ops \<and>
   fst (contains example_library (run_ops example_ops empty_record) ''content''
          example_world) = Inr False \<and>
   fst (contains example_library (run_ops example_ops empty_record) ''stories''
          example_world) = Inr True \<and>
   fst (contains example_library (run_ops example_ops empty_record) ''link''
          example_world) = Inr True \<and>
   fst (contains example_library (run_ops example_ops empty_record) ''story_content''
          example_world) = Inr True \<and>
   fst (contains example_library (run_ops example_ops empty_record) ''update_time''
          example_world) = Inr True"
proof -
  let ?r = "PSmart [(''items'', PList [PDict [(''title'', PUnicode [72, 105])]])]
              default_format 1 None"
  have a: "feed_ok []" by (simp add: feed_ok_def)
  have b: "list_all op_ok example_ops"
    by (simp add: example_ops_def value_ok_def sized_def)
  have r: "run_ops example_ops empty_record = ?r"
    by (simp add: run_ops_def example_ops_def empty_record_def delitem_def safe_delete_def
        update_record_def computed_names_def)
  have e: "run_ops example_ops empty_record =
             run_ops example_ops (PSmart [] default_format 1 None)"
    by (simp add: empty_record_def)
  note t = computed_fields_contained[OF e, of example_library example_world]
  have c: "fst (contains example_library (run_ops example_ops empty_record) ''content''
             example_world) = Inr False"
    using t by (simp add: r)
  have typed: "fst (contains example_library (run_ops example_ops empty_record) ''stories''
                 example_world) = Inr True \<and>
               fst (contains example_library (run_ops example_ops empty_record) ''link''
                 example_world) = Inr True"
    using t a b by blast
  have "story_content_test ?r = Inr True"
    by (simp add: story_content_test_def content_candidates_def get_stored_def
        getitem_stored_def sized_def first_longest_def)
  then have sc: "fst (contains example_library (run_ops example_ops empty_record)
                   ''story_content'' example_world) = Inr True"
    using t by (simp add: r)
  have "map_of (feed_dict (run_ops example_ops empty_record)) ''updated_parsed'' = None"
    by (simp add: r)
  then have u: "fst (contains example_library (run_ops example_ops empty_record)
                  ''update_time'' example_world) = Inr True"
    using t by blast
  show ?thesis using r a b c typed sc u by simp
qed

end
